theory Spec2Isabelle
  imports Main "HOL-Library.AList"
begin

section \<open>Data model: the tables of the hosted store\<close>

text \<open>
  The two components (\<open>Inbox.tsx\<close> and the resource table) read and write four tables
  of a hosted relational store through a client SDK. Identifiers are the store's string
  ids; a timestamp is the instant that \<open>new Date(s)\<close> yields for a timestamp column, as
  an integer number of milliseconds.
\<close>

type_synonym uuid = string
type_synonym time = int

record contact_info =
  company_name :: string
  email :: string
  phone :: string
  address :: string

record company =
  c_id :: uuid
  anonymous_id :: string
  real_contact_info :: "contact_info option"

record period =
  p_from :: time
  p_to :: time

record resource =
  r_id :: uuid
  competence :: string
  is_taken :: bool
  price :: "nat option"
  price_type :: string
  period :: period
  company_id :: uuid
  anonymId :: string

text \<open>A row of table \<open>messages\<close>, with its three foreign keys.\<close>

record message_row =
  m_id :: uuid
  m_subject :: string
  m_content :: string
  m_created_at :: time
  m_read_at :: "time option"
  m_thread_id :: "uuid option"
  from_company_id :: uuid
  to_company_id :: uuid
  resource_id :: uuid

text \<open>A row of table \<open>thread_contact_sharing\<close>: the contact disclosure of a thread.\<close>

record sharing_row =
  s_thread_id :: uuid
  s_from_company_id :: uuid
  s_to_company_id :: uuid

record store =
  companies :: "company list"
  resources :: "resource list"
  messages :: "message_row list"
  thread_contact_sharing :: "sharing_row list"

text \<open>
  The type \<open>Message\<close> of the components: a message row as the select of \<open>loadMessages\<close>
  and \<open>loadThread\<close> returns it, with the two companies and the resource embedded, after
  the filter \<open>msg.from_company && msg.to_company && msg.resource\<close> has passed it.
\<close>

record message =
  msg_id :: uuid
  subject :: string
  content :: string
  created_at :: time
  read_at :: "time option"
  thread_id :: "uuid option"
  from_company :: company
  to_company :: company
  resource :: resource

text \<open>The \<open>error\<close> field of a response of the store: \<open>null\<close>, or an error object.\<close>

datatype outcome = Ok | Rejected

section \<open>JavaScript values\<close>

text \<open>
  \<open>a || b\<close> for \<open>a : string | null\<close> and a string \<open>b\<close>: \<open>null\<close> and the empty string
  are falsy.
\<close>

definition or_else :: "string option \<Rightarrow> string \<Rightarrow> string" where
  "or_else a b = (case a of None \<Rightarrow> b | Some v \<Rightarrow> if v = [] then b else v)"

text \<open>
  A string is the UTF-8 encoding of the JavaScript string. \<open>white_space\<close> lists the
  encodings of the code points that \<open>String.prototype.trim\<close> strips: the white space
  U+0009, U+000B, U+000C, U+0020, U+00A0, U+FEFF and the space separators U+1680,
  U+2000 to U+200A, U+202F, U+205F, U+3000, and the line terminators U+000A, U+000D,
  U+2028, U+2029. No encoding is a prefix of another, and in well-formed UTF-8 one of
  them at the end of a string is its last code point.
\<close>

definition white_space :: "string list" where
  "white_space =
     [[CHR 0x09], [CHR 0x0A], [CHR 0x0B], [CHR 0x0C], [CHR 0x0D], [CHR 0x20],
      [CHR 0xC2, CHR 0xA0],
      [CHR 0xE1, CHR 0x9A, CHR 0x80],
      [CHR 0xE2, CHR 0x80, CHR 0x80], [CHR 0xE2, CHR 0x80, CHR 0x81],
      [CHR 0xE2, CHR 0x80, CHR 0x82], [CHR 0xE2, CHR 0x80, CHR 0x83],
      [CHR 0xE2, CHR 0x80, CHR 0x84], [CHR 0xE2, CHR 0x80, CHR 0x85],
      [CHR 0xE2, CHR 0x80, CHR 0x86], [CHR 0xE2, CHR 0x80, CHR 0x87],
      [CHR 0xE2, CHR 0x80, CHR 0x88], [CHR 0xE2, CHR 0x80, CHR 0x89],
      [CHR 0xE2, CHR 0x80, CHR 0x8A],
      [CHR 0xE2, CHR 0x80, CHR 0xA8], [CHR 0xE2, CHR 0x80, CHR 0xA9],
      [CHR 0xE2, CHR 0x80, CHR 0xAF],
      [CHR 0xE2, CHR 0x81, CHR 0x9F],
      [CHR 0xE3, CHR 0x80, CHR 0x80],
      [CHR 0xEF, CHR 0xBB, CHR 0xBF]]"

text \<open>
  \<open>strip ws s\<close> takes from the front of \<open>s\<close> every sequence of \<open>ws\<close> it starts with,
  as long as there is one.
\<close>

function strip :: "string list \<Rightarrow> string \<Rightarrow> string" where
  "strip ws s =
     (case find (\<lambda>w. w \<noteq> [] \<and> take (length w) s = w) ws of
        None \<Rightarrow> s
      | Some w \<Rightarrow> strip ws (drop (length w) s))"
  by pat_completeness auto
termination
proof (relation "measure (\<lambda>(ws, s). length s)")
  show "wf (measure (\<lambda>(ws, s). length s))"
    by simp
next
  fix ws :: "string list" and s w :: string
  assume "find (\<lambda>w. w \<noteq> [] \<and> take (length w) s = w) ws = Some w"
  then have "w \<noteq> []" and "take (length w) s = w"
    by (auto simp add: find_Some_iff)
  then have "0 < length w" and "length (take (length w) s) = length w"
    by simp_all
  then have "0 < length w" and "min (length s) (length w) = length w"
    by (simp_all only: length_take)
  then have "length s - length w < length s"
    by linarith
  then show "((ws, drop (length w) s), (ws, s)) \<in> measure (\<lambda>(ws, s). length s)"
    by simp
qed

declare strip.simps [simp del]

text \<open>\<open>String.prototype.trim\<close>: white space is stripped from both ends.\<close>

definition trim :: "string \<Rightarrow> string" where
  "trim s = rev (strip (map rev white_space) (rev (strip white_space s)))"

text \<open>The decimal numeral that a template literal prints for a non-negative integer.\<close>

fun show_nat :: "nat \<Rightarrow> string" where
  "show_nat n =
     (if n < 10 then [char_of (48 + n)]
      else show_nat (n div 10) @ [char_of (48 + n mod 10)])"

declare show_nat.simps [simp del]

text \<open>The two letters outside ASCII of the interface's texts, as UTF-8.\<close>

definition aring :: string where
  "aring = [CHR 0xC3, CHR 0xA5]"

definition oslash :: string where
  "oslash = [CHR 0xC3, CHR 0xB8]"

section \<open>Queries\<close>

definition find_company :: "store \<Rightarrow> uuid \<Rightarrow> company option" where
  "find_company st i = find (\<lambda>c. c_id c = i) (companies st)"

definition find_resource :: "store \<Rightarrow> uuid \<Rightarrow> resource option" where
  "find_resource st i = find (\<lambda>r. r_id r = i) (resources st)"

text \<open>
  The embedding select of \<open>loadMessages\<close> and \<open>loadThread\<close> on one row, followed by
  their filter \<open>validMessages\<close>: an embedded company or resource is \<open>null\<close> when the
  reference does not resolve, and the filter drops the row then.
\<close>

definition embed :: "store \<Rightarrow> message_row \<Rightarrow> message option" where
  "embed st r =
     (case find_company st (from_company_id r) of
        None \<Rightarrow> None
      | Some f \<Rightarrow>
          (case find_company st (to_company_id r) of
             None \<Rightarrow> None
           | Some t \<Rightarrow>
               (case find_resource st (resource_id r) of
                  None \<Rightarrow> None
                | Some rs \<Rightarrow>
                    Some \<lparr>msg_id = m_id r, subject = m_subject r, content = m_content r,
                          created_at = m_created_at r, read_at = m_read_at r,
                          thread_id = m_thread_id r, from_company = f, to_company = t,
                          resource = rs\<rparr>)))"

definition validMessages :: "store \<Rightarrow> message_row list \<Rightarrow> message list" where
  "validMessages st rows = List.map_filter (embed st) rows"

text \<open>
  \<open>.order('created_at', { ascending: true })\<close> and \<open>{ ascending: false }\<close>. The store
  leaves the order of rows with equal timestamps open; the stable sort fixes one.
\<close>

definition order_asc :: "message_row list \<Rightarrow> message_row list" where
  "order_asc rows = sort_key m_created_at rows"

definition order_desc :: "message_row list \<Rightarrow> message_row list" where
  "order_desc rows = sort_key (\<lambda>r. - m_created_at r) rows"

section \<open>The resource table: status of a resource\<close>

text \<open>
  An entry of \<open>pendingRequests\<close>: a message row as \<open>loadPendingRequests\<close> selects it,
  with the sender's \<open>anonymous_id\<close> added.
\<close>

record pending_request =
  pr_id :: uuid
  pr_content :: string
  pr_created_at :: time
  pr_resource_id :: uuid
  pr_from_company_id :: uuid
  pr_from_anonymous_id :: string

text \<open>What \<open>getStatusInfo\<close> returns: the icon (component and class), the text, the colour.\<close>

record status_info =
  status_icon :: "string \<times> string"
  status_text :: string
  status_color :: string

text \<open>
  \<open>pendingRequests[id]?.length\<close>, with \<open>undefined\<close> read as 0: both fail the test
  \<open>> 0\<close>, the only use \<open>getStatusInfo\<close> makes of an absent entry.
\<close>

definition pendingLength :: "(uuid \<rightharpoonup> pending_request list) \<Rightarrow> uuid \<Rightarrow> nat" where
  "pendingLength pendingRequests i = (case pendingRequests i of None \<Rightarrow> 0 | Some ms \<Rightarrow> length ms)"

definition getStatusInfo ::
  "(uuid \<rightharpoonup> contact_info) \<Rightarrow> (uuid \<rightharpoonup> pending_request list) \<Rightarrow> time \<Rightarrow> resource \<Rightarrow> status_info" where
  "getStatusInfo contactInfo pendingRequests now r =
     (if is_taken r then
        (let info = contactInfo (r_id r) in
         \<lparr>status_icon = (if info \<noteq> None then (''Check'', ''w-4 h-4 text-green-600'')
                         else (''MessageSquare'', ''w-4 h-4 text-blue-600'')),
          status_text = (if info \<noteq> None then ''Avtale inng'' @ aring @ ''tt''
                         else ''Venter p'' @ aring @ '' godkjenning''),
          status_color = (if info \<noteq> None then ''text-green-600'' else ''text-blue-600'')\<rparr>)
      else if pendingLength pendingRequests (r_id r) > 0 then
        (let n = pendingLength pendingRequests (r_id r) in
         \<lparr>status_icon = (''Clock'', ''w-4 h-4 text-yellow-600''),
          status_text = show_nat n @ '' ny'' @ (if n > 1 then ''e'' else '''') @ '' foresp''
                          @ oslash @ ''rsel'' @ (if n > 1 then ''er'' else ''''),
          status_color = ''text-yellow-600''\<rparr>)
      else if p_to (period r) < now then
        \<lparr>status_icon = (''X'', ''w-4 h-4 text-red-600''),
         status_text = ''Utl'' @ oslash @ ''pt'',
         status_color = ''text-red-600''\<rparr>
      else
        \<lparr>status_icon = (''Clock'', ''w-4 h-4 text-blue-600''),
         status_text = ''Aktiv'',
         status_color = ''text-blue-600''\<rparr>)"

text \<open>
  The specification's \<open>statusOf\<close>, written from its words: one of five states, the list
  read top to bottom. \<open>render\<close> is how the table shows each state.
\<close>

datatype status = Agreed | AwaitingApproval | PendingRequests nat | Expired | Active

definition statusOf :: "resource \<Rightarrow> bool \<Rightarrow> nat \<Rightarrow> time \<Rightarrow> status" where
  "statusOf r resolvable n now =
     (if is_taken r \<and> resolvable then Agreed
      else if is_taken r then AwaitingApproval
      else if n > 0 then PendingRequests n
      else if p_to (period r) < now then Expired
      else Active)"

fun render :: "status \<Rightarrow> status_info" where
  "render Agreed =
     \<lparr>status_icon = (''Check'', ''w-4 h-4 text-green-600''),
      status_text = ''Avtale inng'' @ aring @ ''tt'',
      status_color = ''text-green-600''\<rparr>"
| "render AwaitingApproval =
     \<lparr>status_icon = (''MessageSquare'', ''w-4 h-4 text-blue-600''),
      status_text = ''Venter p'' @ aring @ '' godkjenning'',
      status_color = ''text-blue-600''\<rparr>"
| "render (PendingRequests n) =
     \<lparr>status_icon = (''Clock'', ''w-4 h-4 text-yellow-600''),
      status_text = show_nat n @ '' ny'' @ (if n > 1 then ''e'' else '''') @ '' foresp''
                      @ oslash @ ''rsel'' @ (if n > 1 then ''er'' else ''''),
      status_color = ''text-yellow-600''\<rparr>"
| "render Expired =
     \<lparr>status_icon = (''X'', ''w-4 h-4 text-red-600''),
      status_text = ''Utl'' @ oslash @ ''pt'',
      status_color = ''text-red-600''\<rparr>"
| "render Active =
     \<lparr>status_icon = (''Clock'', ''w-4 h-4 text-blue-600''),
      status_text = ''Aktiv'',
      status_color = ''text-blue-600''\<rparr>"

text \<open>A left inverse of \<open>show_nat\<close>: the number a decimal numeral stands for.\<close>

definition read_nat :: "string \<Rightarrow> nat" where
  "read_nat cs = foldl (\<lambda>a c. 10 * a + (of_char c - 48)) 0 cs"

section \<open>The resource table: pending requests and acceptance\<close>

text \<open>The value of \<open>s : string | null\<close> where it is truthy.\<close>

definition truthy :: "string option \<Rightarrow> string option" where
  "truthy s = (case s of None \<Rightarrow> None | Some v \<Rightarrow> if v = [] then None else Some v)"

text \<open>
  The sender's company is fetched with one more call per message (\<open>lookup\<close> is the
  answer of the store to it); whatever goes wrong there, the name is \<open>Ukjent bedrift\<close>.
\<close>

definition withCompanyInfo :: "(uuid \<Rightarrow> outcome) \<Rightarrow> store \<Rightarrow> message_row \<Rightarrow> pending_request" where
  "withCompanyInfo lookup st r =
     \<lparr>pr_id = m_id r, pr_content = m_content r, pr_created_at = m_created_at r,
      pr_resource_id = resource_id r, pr_from_company_id = from_company_id r,
      pr_from_anonymous_id =
        (case lookup (from_company_id r) of
           Rejected \<Rightarrow> ''Ukjent bedrift''
         | Ok \<Rightarrow>
             (case find_company st (from_company_id r) of
                None \<Rightarrow> ''Ukjent bedrift''
              | Some c \<Rightarrow> if anonymous_id c = [] then ''Ukjent bedrift'' else anonymous_id c))\<rparr>"

text \<open>The \<open>reduce\<close> of \<open>loadPendingRequests\<close>: \<open>if (!acc[k]) acc[k] = []; acc[k].push(msg)\<close>.\<close>

definition groupStep :: "(uuid \<rightharpoonup> pending_request list) \<Rightarrow> pending_request \<Rightarrow> (uuid \<rightharpoonup> pending_request list)" where
  "groupStep acc msg =
     acc(pr_resource_id msg \<mapsto> (case acc (pr_resource_id msg) of None \<Rightarrow> [] | Some ms \<Rightarrow> ms) @ [msg])"

definition groupByResource :: "pending_request list \<Rightarrow> (uuid \<rightharpoonup> pending_request list)" where
  "groupByResource msgs = foldl groupStep Map.empty msgs"

text \<open>
  \<open>loadPendingRequests\<close>: the new value of the state \<open>pendingRequests\<close>. The select's
  \<open>error\<close> is not read: when the call fails \<open>data\<close> is \<open>null\<close> and the state stays.
\<close>

definition isPendingRequest :: "uuid \<Rightarrow> message_row \<Rightarrow> bool" where
  "isPendingRequest u r = (to_company_id r = u \<and> m_thread_id r = None \<and> m_read_at r = None)"

definition loadPendingRequests ::
  "outcome \<Rightarrow> (uuid \<Rightarrow> outcome) \<Rightarrow> store \<Rightarrow> uuid option \<Rightarrow> (uuid \<rightharpoonup> pending_request list)
     \<Rightarrow> (uuid \<rightharpoonup> pending_request list)" where
  "loadPendingRequests sel lookup st userCompanyId pendingRequests =
     (case truthy userCompanyId of
        None \<Rightarrow> pendingRequests
      | Some u \<Rightarrow>
          (case sel of
             Rejected \<Rightarrow> pendingRequests
           | Ok \<Rightarrow>
               groupByResource
                 (map (withCompanyInfo lookup st)
                    (order_desc (filter (isPendingRequest u) (messages st))))))"

text \<open>The update \<open>is_taken: true\<close> of the resource rows with a given id.\<close>

definition set_taken :: "uuid \<Rightarrow> store \<Rightarrow> store" where
  "set_taken i st =
     st\<lparr>resources := map (\<lambda>r. if r_id r = i then r\<lparr>is_taken := True\<rparr> else r) (resources st)\<rparr>"

datatype rpc_error = AlreadyTakenError | NotFoundError

text \<open>
  Modelled from the spec: the remote procedure \<open>accept_resource\<close> of the store, which
  \<open>handleAcceptResource\<close> calls and whose body is not among the sources. The
  specification's \<open>acceptResource\<close>: it fails with \<open>AlreadyTakenError\<close> when \<open>is_taken\<close>
  is already true and sets \<open>is_taken\<close> otherwise; a resource that does not exist is the
  specification's \<open>NotFoundError\<close>.
\<close>

definition accept_resource :: "uuid \<Rightarrow> uuid \<Rightarrow> store \<Rightarrow> rpc_error + store" where
  "accept_resource p_resource_id p_accepting_company_id st =
     (case find_resource st p_resource_id of
        None \<Rightarrow> Inl NotFoundError
      | Some r \<Rightarrow> if is_taken r then Inl AlreadyTakenError else Inr (set_taken p_resource_id st))"

text \<open>
  \<open>handleAcceptResource\<close>: the answer of the remote procedure is awaited and dropped, so
  an error of it changes nothing and is shown nowhere.
\<close>

definition handleAcceptResource :: "uuid option \<Rightarrow> uuid \<Rightarrow> store \<Rightarrow> store" where
  "handleAcceptResource userCompanyId resourceId st =
     (case truthy userCompanyId of
        None \<Rightarrow> st
      | Some u \<Rightarrow>
          (case accept_resource resourceId u st of
             Inl e \<Rightarrow> st
           | Inr st' \<Rightarrow> st'))"

section \<open>The inbox\<close>

record inbox =
  inbox_messages :: "message list"
  selectedMessage :: "message option"
  selectedThread :: "message list"
  reply :: string
  loading :: bool
  loadingThread :: bool
  error :: "string option"
  hasCompany :: bool
  contactShared :: "uuid \<rightharpoonup> bool"
  userCompanyId :: "uuid option"

definition try_again :: string where
  "try_again = ''Vennligst pr'' @ oslash @ ''v igjen senere.''"

definition loadContactSharing :: "outcome \<Rightarrow> store \<Rightarrow> inbox \<Rightarrow> inbox" where
  "loadContactSharing sel st ui =
     (case truthy (userCompanyId ui) of
        None \<Rightarrow> ui
      | Some u \<Rightarrow>
          (case sel of
             Rejected \<Rightarrow> ui
           | Ok \<Rightarrow>
               ui\<lparr>contactShared :=
                     foldl (\<lambda>acc curr. acc(s_thread_id curr \<mapsto> True)) Map.empty
                       (filter (\<lambda>s. s_from_company_id s = u \<or> s_to_company_id s = u)
                          (thread_contact_sharing st))\<rparr>))"

text \<open>
  The \<open>Map\<close> of \<open>loadMessages\<close>, as an association list in insertion order: \<open>set\<close> on a
  key that is present replaces the value where it stands, \<open>set\<close> on a new key appends.
\<close>

definition threadStep :: "(uuid \<times> message) list \<Rightarrow> message \<Rightarrow> (uuid \<times> message) list" where
  "threadStep threadMap msg =
     (let threadId = or_else (thread_id msg) (msg_id msg) in
      case map_of threadMap threadId of
        None \<Rightarrow> AList.update threadId msg threadMap
      | Some cur \<Rightarrow>
          if created_at cur < created_at msg then AList.update threadId msg threadMap
          else threadMap)"

definition latestMessages :: "message list \<Rightarrow> message list" where
  "latestMessages valid = map snd (foldl threadStep [] valid)"

definition involves :: "uuid \<Rightarrow> message_row \<Rightarrow> bool" where
  "involves u r = (from_company_id r = u \<or> to_company_id r = u)"

definition loadMessages :: "outcome \<Rightarrow> store \<Rightarrow> inbox \<Rightarrow> inbox" where
  "loadMessages sel st ui =
     (case truthy (userCompanyId ui) of
        None \<Rightarrow> ui
      | Some u \<Rightarrow>
          (case sel of
             Rejected \<Rightarrow>
               ui\<lparr>error := Some (''Kunne ikke laste meldinger. '' @ try_again), loading := False\<rparr>
           | Ok \<Rightarrow>
               (let latest =
                      latestMessages
                        (validMessages st (order_desc (filter (involves u) (messages st))))
                in ui\<lparr>inbox_messages := latest,
                      selectedMessage :=
                        (case selectedMessage ui of
                           None \<Rightarrow> None
                         | Some s \<Rightarrow>
                             (case find (\<lambda>m. msg_id m = msg_id s \<or> thread_id m = Some (msg_id s))
                                     latest of
                                None \<Rightarrow> Some s
                              | Some m \<Rightarrow> Some m)),
                      loading := False\<rparr>)))"

text \<open>The update \<open>read_at: now\<close> of the message rows with a given id.\<close>

definition stamp :: "time \<Rightarrow> uuid \<Rightarrow> store \<Rightarrow> store" where
  "stamp now i st =
     st\<lparr>messages := map (\<lambda>r. if m_id r = i then r\<lparr>m_read_at := Some now\<rparr> else r) (messages st)\<rparr>"

definition inThread :: "uuid \<Rightarrow> message_row \<Rightarrow> bool" where
  "inThread messageId r = (m_id r = messageId \<or> m_thread_id r = Some messageId)"

definition isUnreadFor :: "uuid option \<Rightarrow> message \<Rightarrow> bool" where
  "isUnreadFor u m = (read_at m = None \<and> Some (c_id (to_company m)) = u)"

text \<open>
  \<open>loadThread\<close>: \<open>sel\<close> answers the select, \<open>upd i\<close> the update of message \<open>i\<close> (its
  result is not read, so a failed update is silent); \<open>now\<close> is the clock, read once for
  the updates that one synchronous \<open>map\<close> issues.
\<close>

definition loadThread ::
  "outcome \<Rightarrow> (uuid \<Rightarrow> outcome) \<Rightarrow> time \<Rightarrow> uuid \<Rightarrow> inbox \<Rightarrow> store \<Rightarrow> inbox \<times> store" where
  "loadThread sel upd now messageId ui st =
     (case sel of
        Rejected \<Rightarrow>
          (ui\<lparr>error := Some (''Kunne ikke laste meldingstr'' @ aring @ ''d. '' @ try_again),
              loadingThread := False\<rparr>, st)
      | Ok \<Rightarrow>
          (let valid = validMessages st (order_asc (filter (inThread messageId) (messages st)));
               unreadMessages = filter (isUnreadFor (userCompanyId ui)) valid
           in (ui\<lparr>selectedThread := valid, loadingThread := False\<rparr>,
               fold (stamp now) (map msg_id (filter (\<lambda>m. upd (msg_id m) = Ok) unreadMessages)) st)))"

text \<open>
  The other participant of the selected message, as \<open>handleReply\<close> and
  \<open>handleShareContact\<close> compute it.
\<close>

definition otherCompany :: "uuid \<Rightarrow> message \<Rightarrow> uuid" where
  "otherCompany u m =
     (if c_id (from_company m) = u then c_id (to_company m) else c_id (from_company m))"

text \<open>
  \<open>handleReply\<close>, up to the end of its awaited part. \<open>ins\<close> answers the insert; the
  store gives the new row its id \<open>new_id\<close> and its \<open>created_at\<close> \<open>now\<close>, and leaves
  \<open>read_at\<close> null. The reloads that follow a successful insert (\<open>loadMessages\<close>,
  \<open>loadThread\<close>) are not awaited; they are the functions above.
\<close>

definition handleReply :: "outcome \<Rightarrow> uuid \<Rightarrow> time \<Rightarrow> inbox \<Rightarrow> store \<Rightarrow> inbox \<times> store" where
  "handleReply ins new_id now ui st =
     (case selectedMessage ui of
        None \<Rightarrow> (ui, st)
      | Some sel \<Rightarrow>
          if trim (reply ui) = [] then (ui, st)
          else
            (case truthy (userCompanyId ui) of
               None \<Rightarrow> (ui, st)
             | Some u \<Rightarrow>
                 (case ins of
                    Rejected \<Rightarrow>
                      (ui\<lparr>error := Some (''Kunne ikke sende svar. '' @ try_again)\<rparr>, st)
                  | Ok \<Rightarrow>
                      (ui\<lparr>reply := []\<rparr>,
                       st\<lparr>messages := messages st @
                            [\<lparr>m_id = new_id,
                              m_subject = ''Re: '' @ subject sel,
                              m_content = reply ui,
                              m_created_at = now,
                              m_read_at = None,
                              m_thread_id = Some (or_else (thread_id sel) (msg_id sel)),
                              from_company_id = u,
                              to_company_id = otherCompany u sel,
                              resource_id = r_id (resource sel)\<rparr>]\<rparr>))))"

text \<open>
  \<open>handleShareContact\<close>: two inserts, one after the other, each with its own answer;
  the second is issued only when the first has succeeded.
\<close>

definition announcement :: "uuid \<Rightarrow> time \<Rightarrow> uuid \<Rightarrow> uuid \<Rightarrow> message \<Rightarrow> message_row" where
  "announcement new_id now messageId u sel =
     \<lparr>m_id = new_id,
      m_subject = ''Kontaktinformasjon delt'',
      m_content = ''Kontaktinformasjon er n'' @ aring @ '' delt mellom partene.'',
      m_created_at = now,
      m_read_at = None,
      m_thread_id = Some messageId,
      from_company_id = u,
      to_company_id = otherCompany u sel,
      resource_id = r_id (resource sel)\<rparr>"

definition handleShareContact ::
  "outcome \<Rightarrow> outcome \<Rightarrow> uuid \<Rightarrow> time \<Rightarrow> uuid \<Rightarrow> inbox \<Rightarrow> store \<Rightarrow> inbox \<times> store" where
  "handleShareContact ins_sharing ins_message new_id now messageId ui st =
     (case selectedMessage ui of
        None \<Rightarrow> (ui, st)
      | Some sel \<Rightarrow>
          (case truthy (userCompanyId ui) of
             None \<Rightarrow> (ui, st)
           | Some u \<Rightarrow>
               (case ins_sharing of
                  Rejected \<Rightarrow>
                    (ui\<lparr>error := Some (''Kunne ikke dele kontaktinformasjon. Pr'' @ oslash
                                         @ ''v igjen senere.'')\<rparr>, st)
                | Ok \<Rightarrow>
                    (let st1 = st\<lparr>thread_contact_sharing := thread_contact_sharing st @
                                  [\<lparr>s_thread_id = messageId, s_from_company_id = u,
                                    s_to_company_id = otherCompany u sel\<rparr>]\<rparr>
                     in case ins_message of
                          Rejected \<Rightarrow>
                            (ui\<lparr>error := Some (''Kunne ikke dele kontaktinformasjon. Pr''
                                                 @ oslash @ ''v igjen senere.'')\<rparr>, st1)
                        | Ok \<Rightarrow>
                            (ui, st1\<lparr>messages := messages st1 @
                                       [announcement new_id now messageId u sel]\<rparr>)))))"

text \<open>\<open>handleMarkAsTaken\<close>: one update, with no condition on \<open>is_taken\<close>.\<close>

definition handleMarkAsTaken :: "outcome \<Rightarrow> uuid \<Rightarrow> inbox \<Rightarrow> store \<Rightarrow> inbox \<times> store" where
  "handleMarkAsTaken upd resourceId ui st =
     (case upd of
        Rejected \<Rightarrow>
          (ui\<lparr>error := Some (''Kunne ikke markere ressursen som tatt. Pr'' @ oslash
                               @ ''v igjen senere.'')\<rparr>, st)
      | Ok \<Rightarrow> (ui, set_taken resourceId st))"

text \<open>The button \<open>Marker som avtalt\<close> is rendered under this condition only.\<close>

definition showsMarkAsTaken :: "inbox \<Rightarrow> bool" where
  "showsMarkAsTaken ui =
     (case selectedMessage ui of
        None \<Rightarrow> False
      | Some sel \<Rightarrow>
          \<not> is_taken (resource sel)
          \<and> contactShared ui (or_else (thread_id sel) (msg_id sel)) = Some True)"

definition getDisplayName :: "(uuid \<rightharpoonup> bool) \<Rightarrow> message \<Rightarrow> bool \<Rightarrow> string" where
  "getDisplayName shared m isFromUser =
     (let company = (if isFromUser then from_company m else to_company m);
          isShared = (shared (or_else (thread_id m) (msg_id m)) = Some True)
      in if isFromUser then ''Du''
         else
           (case real_contact_info company of
              Some info \<Rightarrow> if isShared then company_name info else anonymous_id company
            | None \<Rightarrow> anonymous_id company))"

text \<open>The line of the message list that names the other party (\<open>Til:\<close> or \<open>Fra:\<close>).\<close>

definition listLabel :: "inbox \<Rightarrow> message \<Rightarrow> string" where
  "listLabel ui m =
     (let displayName =
            getDisplayName (contactShared ui) m (Some (c_id (from_company m)) = userCompanyId ui)
      in if Some (c_id (from_company m)) = userCompanyId ui
         then ''Til: '' @ getDisplayName (contactShared ui) m False
         else ''Fra: '' @ displayName)"

text \<open>The name over a message of the open thread.\<close>

definition threadLabel :: "inbox \<Rightarrow> message \<Rightarrow> string" where
  "threadLabel ui m =
     getDisplayName (contactShared ui) m (Some (c_id (from_company m)) = userCompanyId ui)"

text \<open>
  The block \<open>Kontaktinformasjon:\<close> under a message of the open thread: the lines it
  shows, none when \<open>showContactInfo\<close> is false.
\<close>

definition threadContactBlock :: "inbox \<Rightarrow> message \<Rightarrow> message \<Rightarrow> string list" where
  "threadContactBlock ui sel m =
     (case real_contact_info (from_company m) of
        None \<Rightarrow> []
      | Some info \<Rightarrow>
          if contactShared ui (or_else (thread_id sel) (msg_id sel)) = Some True
             \<and> subject m \<noteq> ''Kontaktinformasjon delt''
          then [company_name info, email info, phone info, address info]
          else [])"

section \<open>Operations on the store\<close>

text \<open>
  Every write the two components make, with the answers of the store and the state of
  the interface that issues it. \<open>apply_op\<close> is its effect on the store.
\<close>

datatype op =
    OpLoadThread outcome "uuid \<Rightarrow> outcome" time uuid inbox
  | OpReply outcome uuid time inbox
  | OpShareContact outcome outcome uuid time uuid inbox
  | OpMarkAsTaken outcome uuid inbox
  | OpAcceptResource "uuid option" uuid

fun apply_op :: "op \<Rightarrow> store \<Rightarrow> store" where
  "apply_op (OpLoadThread sel upd now messageId ui) st = snd (loadThread sel upd now messageId ui st)"
| "apply_op (OpReply ins new_id now ui) st = snd (handleReply ins new_id now ui st)"
| "apply_op (OpShareContact i1 i2 new_id now messageId ui) st =
     snd (handleShareContact i1 i2 new_id now messageId ui st)"
| "apply_op (OpMarkAsTaken upd resourceId ui) st = snd (handleMarkAsTaken upd resourceId ui st)"
| "apply_op (OpAcceptResource u resourceId) st = handleAcceptResource u resourceId st"

definition taken :: "store \<Rightarrow> uuid \<Rightarrow> bool" where
  "taken st i = (case find_resource st i of None \<Rightarrow> False | Some r \<Rightarrow> is_taken r)"

section \<open>Invariants\<close>

text \<open>
  The rows that \<open>loadThread k\<close> marks as read for the interface \<open>ui\<close>: the messages it
  shows that are addressed to the company of \<open>ui\<close> and have \<open>read_at\<close> null.
\<close>

definition stampedBy :: "uuid \<Rightarrow> inbox \<Rightarrow> store \<Rightarrow> message_row \<Rightarrow> bool" where
  "stampedBy k ui st r =
     (inThread k r \<and> embed st r \<noteq> None \<and> m_read_at r = None
      \<and> Some (to_company_id r) = userCompanyId ui)"

text \<open>
  The thread of a row: \<open>thread_id || id\<close>. In a thread all messages are about one
  resource and between the same two companies.
\<close>

definition threadKey :: "message \<Rightarrow> uuid" where
  "threadKey m = or_else (thread_id m) (msg_id m)"

definition rowKey :: "message_row \<Rightarrow> uuid" where
  "rowKey r = or_else (m_thread_id r) (m_id r)"

definition threadInvariant :: "store \<Rightarrow> bool" where
  "threadInvariant st =
     (\<forall>a \<in> set (messages st). \<forall>b \<in> set (messages st).
        rowKey a = rowKey b \<longrightarrow>
          resource_id a = resource_id b
          \<and> {from_company_id a, to_company_id a} = {from_company_id b, to_company_id b})"

text \<open>
  The list view as the specification words it: of a list of messages, newest first, the
  first message of every thread not seen before.
\<close>

fun firstPerThread :: "uuid set \<Rightarrow> message list \<Rightarrow> message list" where
  "firstPerThread seen [] = []"
| "firstPerThread seen (m # ms) =
     (if threadKey m \<in> seen then firstPerThread seen ms
      else m # firstPerThread (insert (threadKey m) seen) ms)"

text \<open>Descending order of \<open>created_at\<close>.\<close>

definition newestFirst :: "message list \<Rightarrow> bool" where
  "newestFirst ms = sorted_wrt (\<lambda>a b. created_at b \<le> created_at a) ms"

text \<open>
  Between two stores: every resource row is as it was, or differs by \<open>is_taken\<close> set.
\<close>

definition keeps_taken :: "store \<Rightarrow> store \<Rightarrow> bool" where
  "keeps_taken st st' =
     list_all2 (\<lambda>a b. b = a \<or> b = a\<lparr>is_taken := True\<rparr>) (resources st) (resources st')"

section \<open>A small marketplace, for the concrete instances\<close>

definition alfa :: company where
  "alfa = \<lparr>c_id = ''A'', anonymous_id = ''Firma-1'',
            real_contact_info = Some \<lparr>company_name = ''Alfa AS'', email = ''post@alfa.no'',
                                       phone = ''11111111'', address = ''Oslo''\<rparr>\<rparr>"

definition beta :: company where
  "beta = \<lparr>c_id = ''B'', anonymous_id = ''Firma-2'',
            real_contact_info = Some \<lparr>company_name = ''Beta AS'', email = ''post@beta.no'',
                                       phone = ''22222222'', address = ''Bergen''\<rparr>\<rparr>"

definition electrician :: resource where
  "electrician = \<lparr>r_id = ''X'', competence = ''Electrician'', is_taken = False,
                   price = Some 500, price_type = ''hourly'',
                   period = \<lparr>p_from = 0, p_to = 100\<rparr>, company_id = ''B'',
                   anonymId = ''Firma-2''\<rparr>"

text \<open>Alfa's request for the electrician, and Beta's reply in its thread.\<close>

definition request :: message_row where
  "request = \<lparr>m_id = ''m1'', m_subject = ''Foresp'', m_content = ''Hei'', m_created_at = 10,
               m_read_at = None, m_thread_id = None, from_company_id = ''A'',
               to_company_id = ''B'', resource_id = ''X''\<rparr>"

definition answer :: message_row where
  "answer = \<lparr>m_id = ''m2'', m_subject = ''Re: Foresp'', m_content = ''Ja'', m_created_at = 20,
              m_read_at = None, m_thread_id = Some ''m1'', from_company_id = ''B'',
              to_company_id = ''A'', resource_id = ''X''\<rparr>"

definition market :: store where
  "market = \<lparr>companies = [alfa, beta], resources = [electrician],
              messages = [request, answer], thread_contact_sharing = []\<rparr>"

text \<open>Beta has opened Alfa's request and typed a reply.\<close>

definition request_msg :: message where
  "request_msg =
     \<lparr>msg_id = ''m1'', subject = ''Foresp'', content = ''Hei'', created_at = 10,
      read_at = None, thread_id = None, from_company = alfa, to_company = beta,
      resource = electrician\<rparr>"

definition beta_inbox :: inbox where
  "beta_inbox =
     \<lparr>inbox_messages = [], selectedMessage = Some request_msg, selectedThread = [],
      reply = ''Ja, det passer'', loading = False, loadingThread = False, error = None,
      hasCompany = True, contactShared = Map.empty, userCompanyId = Some ''B''\<rparr>"

text \<open>
  The same inbox once the contact of the thread is shared; its copy of the resource is
  the one loaded before anyone accepted it.
\<close>

definition stale_inbox :: inbox where
  "stale_inbox = beta_inbox\<lparr>contactShared := [''m1'' \<mapsto> True]\<rparr>"

text \<open>Alfa has opened the thread and looks at Beta's answer.\<close>

definition answer_msg :: message where
  "answer_msg =
     \<lparr>msg_id = ''m2'', subject = ''Re: Foresp'', content = ''Ja'', created_at = 20,
      read_at = None, thread_id = Some ''m1'', from_company = beta, to_company = alfa,
      resource = electrician\<rparr>"

definition alfa_inbox :: inbox where
  "alfa_inbox =
     \<lparr>inbox_messages = [answer_msg], selectedMessage = Some answer_msg,
      selectedThread = [request_msg, answer_msg], reply = [], loading = False,
      loadingThread = False, error = None, hasCompany = True, contactShared = Map.empty,
      userCompanyId = Some ''A''\<rparr>"

text \<open>A reply in the thread whose sender is no longer a company of the store.\<close>

definition orphan :: message_row where
  "orphan = \<lparr>m_id = ''m3'', m_subject = ''Re: Foresp'', m_content = ''Hallo'', m_created_at = 30,
              m_read_at = None, m_thread_id = Some ''m1'', from_company_id = ''C'',
              to_company_id = ''A'', resource_id = ''X''\<rparr>"


text \<open>
  A larger marketplace. Gamma has asked Beta for the electrician too (thread \<open>m4\<close>, with
  Beta's answer), and Alfa has asked Gamma for its plumber (thread \<open>m6\<close>, unanswered).
\<close>

definition gamma :: company where
  "gamma = \<lparr>c_id = ''G'', anonymous_id = ''Firma-3'',
             real_contact_info = Some \<lparr>company_name = ''Gamma AS'', email = ''post@gamma.no'',
                                        phone = ''33333333'', address = ''Trondheim''\<rparr>\<rparr>"

definition plumber :: resource where
  "plumber = \<lparr>r_id = ''Y'', competence = ''Plumber'', is_taken = False,
               price = None, price_type = ''negotiable'',
               period = \<lparr>p_from = 0, p_to = 200\<rparr>, company_id = ''G'',
               anonymId = ''Firma-3''\<rparr>"

definition second_request :: message_row where
  "second_request = \<lparr>m_id = ''m4'', m_subject = ''Ledig'', m_content = ''Hallo'',
                      m_created_at = 15, m_read_at = None, m_thread_id = None,
                      from_company_id = ''G'', to_company_id = ''B'', resource_id = ''X''\<rparr>"

definition second_answer :: message_row where
  "second_answer = \<lparr>m_id = ''m5'', m_subject = ''Re: Ledig'', m_content = ''Nei'',
                     m_created_at = 25, m_read_at = None, m_thread_id = Some ''m4'',
                     from_company_id = ''B'', to_company_id = ''G'', resource_id = ''X''\<rparr>"

definition alfa_request :: message_row where
  "alfa_request = \<lparr>m_id = ''m6'', m_subject = ''Trenger'', m_content = ''Hei'',
                    m_created_at = 5, m_read_at = None, m_thread_id = None,
                    from_company_id = ''A'', to_company_id = ''G'', resource_id = ''Y''\<rparr>"

definition bazaar :: store where
  "bazaar = \<lparr>companies = [alfa, beta, gamma], resources = [electrician, plumber],
              messages = [request, answer, second_request, second_answer, alfa_request],
              thread_contact_sharing = []\<rparr>"

definition bazaar_with_orphan :: store where
  "bazaar_with_orphan =
     bazaar\<lparr>messages := [request, answer, orphan, second_request, second_answer, alfa_request]\<rparr>"

text \<open>The larger marketplace after Beta has opened Alfa's request at time 40.\<close>

definition bazaar_opened :: store where
  "bazaar_opened =
     bazaar\<lparr>messages := [request\<lparr>m_read_at := Some 40\<rparr>, answer, second_request,
                           second_answer, alfa_request]\<rparr>"

definition alfa_request_msg :: message where
  "alfa_request_msg =
     \<lparr>msg_id = ''m6'', subject = ''Trenger'', content = ''Hei'', created_at = 5,
      read_at = None, thread_id = None, from_company = alfa, to_company = gamma,
      resource = plumber\<rparr>"

definition second_request_msg :: message where
  "second_request_msg =
     \<lparr>msg_id = ''m4'', subject = ''Ledig'', content = ''Hallo'', created_at = 15,
      read_at = None, thread_id = None, from_company = gamma, to_company = beta,
      resource = electrician\<rparr>"

text \<open>
  Beta has shared contact with Gamma in thread \<open>m4\<close> and has just selected that thread,
  while the open thread still holds the messages of thread \<open>m1\<close> with Alfa.
\<close>

definition beta_switching :: inbox where
  "beta_switching =
     \<lparr>inbox_messages = [second_request_msg, request_msg],
      selectedMessage = Some second_request_msg, selectedThread = [request_msg],
      reply = [], loading = False, loadingThread = False, error = None, hasCompany = True,
      contactShared = [''m4'' \<mapsto> True], userCompanyId = Some ''B''\<rparr>"

text \<open>Every code point that \<open>trim\<close> strips, one after the other, in UTF-8.\<close>

definition all_white_space :: string where
  "all_white_space =
     [CHR 0x09, CHR 0x0A, CHR 0x0B, CHR 0x0C, CHR 0x0D, CHR 0x20,
      CHR 0xC2, CHR 0xA0,
      CHR 0xE1, CHR 0x9A, CHR 0x80,
      CHR 0xE2, CHR 0x80, CHR 0x80, CHR 0xE2, CHR 0x80, CHR 0x81,
      CHR 0xE2, CHR 0x80, CHR 0x82, CHR 0xE2, CHR 0x80, CHR 0x83,
      CHR 0xE2, CHR 0x80, CHR 0x84, CHR 0xE2, CHR 0x80, CHR 0x85,
      CHR 0xE2, CHR 0x80, CHR 0x86, CHR 0xE2, CHR 0x80, CHR 0x87,
      CHR 0xE2, CHR 0x80, CHR 0x88, CHR 0xE2, CHR 0x80, CHR 0x89,
      CHR 0xE2, CHR 0x80, CHR 0x8A,
      CHR 0xE2, CHR 0x80, CHR 0xA8, CHR 0xE2, CHR 0x80, CHR 0xA9,
      CHR 0xE2, CHR 0x80, CHR 0xAF,
      CHR 0xE2, CHR 0x81, CHR 0x9F,
      CHR 0xE3, CHR 0x80, CHR 0x80,
      CHR 0xEF, CHR 0xBB, CHR 0xBF]"

text \<open>A reply with white space around it and inside it: a no-break space before, a line
  feed and an ideographic space after.\<close>

definition padded_reply :: string where
  "padded_reply =
     [CHR 0xC2, CHR 0xA0] @ ''Ja, det passer'' @ [CHR 0x0A, CHR 0xE3, CHR 0x80, CHR 0x80]"

text \<open>Two requests for the electrician, as \<open>loadPendingRequests\<close> keeps them.\<close>

definition alfa_pending :: pending_request where
  "alfa_pending = \<lparr>pr_id = ''m1'', pr_content = ''Hei'', pr_created_at = 10,
                    pr_resource_id = ''X'', pr_from_company_id = ''A'',
                    pr_from_anonymous_id = ''Firma-1''\<rparr>"

definition gamma_pending :: pending_request where
  "gamma_pending = \<lparr>pr_id = ''m4'', pr_content = ''Hallo'', pr_created_at = 15,
                     pr_resource_id = ''X'', pr_from_company_id = ''G'',
                     pr_from_anonymous_id = ''Firma-3''\<rparr>"

section \<open>The status of a resource\<close>

lemma read_show_nat: "read_nat (show_nat n) = n"
proof (induction n rule: show_nat.induct)
  case (1 n)
  show ?case
  proof (cases "n < 10")
    case True
    then show ?thesis by (subst show_nat.simps) (simp add: read_nat_def)
  next
    case False
    with 1 have "read_nat (show_nat (n div 10)) = n div 10" by simp
    with False show ?thesis
      by (subst show_nat.simps) (simp add: read_nat_def)
  qed
qed

lemma show_nat_inj: "show_nat n = show_nat m \<Longrightarrow> n = m"
  by (metis read_show_nat)

lemma show_nat_length: "0 < length (show_nat n)"
  by (subst show_nat.simps) simp

lemma show_nat_small: "n \<le> 1 \<Longrightarrow> length (show_nat n) = 1"
  by (subst show_nat.simps) simp

lemma pending_text_inj:
  assumes "show_nat n @ '' ny'' @ (if n > 1 then ''e'' else '''') @ '' foresp'' @ oslash @ ''rsel'' @ (if n > 1 then ''er'' else '''')
         = show_nat m @ '' ny'' @ (if m > 1 then ''e'' else '''') @ '' foresp'' @ oslash @ ''rsel'' @ (if m > 1 then ''er'' else '''')"
  shows "n = m"
proof -
  let ?t = "\<lambda>k. show_nat k @ '' ny'' @ (if k > 1 then ''e'' else '''') @ '' foresp'' @ oslash @ ''rsel'' @ (if k > 1 then ''er'' else '''')"
  from assms have len: "length (?t n) = length (?t m)"
    by (rule arg_cong)
  consider "n > 1 \<and> m > 1" | "n \<le> 1 \<and> m \<le> 1" | "n > 1 \<and> m \<le> 1" | "n \<le> 1 \<and> m > 1"
    by linarith
  then show ?thesis
  proof cases
    case 1
    with assms show ?thesis by (auto dest: show_nat_inj)
  next
    case 2
    with assms show ?thesis by (auto dest: show_nat_inj)
  next
    case 3
    with len show_nat_length [of n] show_nat_small [of m] show ?thesis by (simp add: oslash_def)
  next
    case 4
    with len show_nat_length [of m] show_nat_small [of n] show ?thesis by (simp add: oslash_def)
  qed
qed

lemma render_pending_inj:
  assumes "render (PendingRequests n) = render (PendingRequests m)"
  shows "n = m"
proof -
  from assms have "status_text (render (PendingRequests n)) = status_text (render (PendingRequests m))"
    by (rule arg_cong)
  then show ?thesis
    by (intro pending_text_inj) (simp only: render.simps status_info.select_convs)
qed

lemma render_inj: "render s = render s' \<Longrightarrow> s = s'"
proof (cases s)
  case (PendingRequests n)
  assume eq: "render s = render s'"
  show ?thesis
  proof (cases s')
    case (PendingRequests m)
    with eq \<open>s = PendingRequests n\<close> show ?thesis
      using render_pending_inj [of n m] by blast
  qed (use eq \<open>s = PendingRequests n\<close> in simp_all)
qed (cases s'; simp)+

lemma getStatusInfo_render:
  "getStatusInfo ci pr now r = render (statusOf r (ci (r_id r) \<noteq> None) (pendingLength pr (r_id r)) now)"
  by (simp add: getStatusInfo_def statusOf_def Let_def)

text \<open>
  C2. \<open>getStatusInfo\<close> is a function of the resource, the two loaded tables and the
  clock, and what it returns is the rendering of the specification's \<open>statusOf\<close>, with
  the number of requests that \<open>pendingRequests\<close> holds for the resource (none when it has
  no entry): exactly one of the five states, since no two of them render alike. Read top
  to bottom: a taken resource is \<open>Agreed\<close> when its contact information is there and
  \<open>AwaitingApproval\<close> otherwise, whatever the requests and the period; a resource that is
  not taken is \<open>PendingRequests n\<close> when the table holds \<open>n > 0\<close> requests for it, whatever
  the period, and else \<open>Expired\<close> when \<open>period.to\<close> is before now, else \<open>Active\<close>.
\<close>

theorem getStatusInfo_cascade:
  "getStatusInfo ci pr now r
     = render (statusOf r (ci (r_id r) \<noteq> None)
                 (case pr (r_id r) of None \<Rightarrow> 0 | Some ms \<Rightarrow> length ms) now)
   \<and> getStatusInfo ci pr now (r\<lparr>is_taken := True\<rparr>)
     = render (if ci (r_id r) \<noteq> None then Agreed else AwaitingApproval)
   \<and> getStatusInfo ci (pr(r_id r \<mapsto> ms)) now (r\<lparr>is_taken := False\<rparr>)
     = render (if ms \<noteq> [] then PendingRequests (length ms)
               else if p_to (period r) < now then Expired else Active)
   \<and> getStatusInfo ci (pr(r_id r := None)) now (r\<lparr>is_taken := False\<rparr>)
     = render (if p_to (period r) < now then Expired else Active)
   \<and> inj render"
proof -
  have "inj render"
    by (rule injI) (rule render_inj)
  then show ?thesis
    by (simp add: getStatusInfo_render statusOf_def pendingLength_def)
qed

text \<open>
  The electrician, past its period, with two requests, with one, with requests for
  another resource only, and taken; and before the end of its period with no request.
\<close>

theorem getStatusInfo_cascade_witness:
  "getStatusInfo Map.empty [''X'' \<mapsto> [gamma_pending, alfa_pending]] 250 electrician
     = render (PendingRequests 2)
   \<and> status_text (getStatusInfo Map.empty [''X'' \<mapsto> [gamma_pending, alfa_pending]] 250 electrician)
     = ''2 nye foresp'' @ oslash @ ''rseler''
   \<and> status_text (getStatusInfo Map.empty [''X'' \<mapsto> [alfa_pending]] 250 electrician)
     = ''1 ny foresp'' @ oslash @ ''rsel''
   \<and> getStatusInfo Map.empty [''Y'' \<mapsto> [gamma_pending, alfa_pending]] 250 electrician
     = render Expired
   \<and> getStatusInfo Map.empty Map.empty 50 electrician = render Active
   \<and> getStatusInfo Map.empty [''X'' \<mapsto> [gamma_pending, alfa_pending]] 250
        (electrician\<lparr>is_taken := True\<rparr>) = render AwaitingApproval
   \<and> render (PendingRequests 2) \<noteq> render (PendingRequests 1)
   \<and> render Expired \<noteq> render AwaitingApproval"
proof -
  let ?two = "[''X'' \<mapsto> [gamma_pending, alfa_pending]]"
  let ?one = "[''X'' \<mapsto> [alfa_pending]]"
  let ?other = "[''Y'' \<mapsto> [gamma_pending, alfa_pending]]"
  let ?count = "\<lambda>pr. case pr (r_id electrician) of None \<Rightarrow> 0 | Some ms \<Rightarrow> length ms"
  have x: "r_id electrician = ''X''" "p_to (period electrician) = 100" "\<not> is_taken electrician"
    by (simp_all add: electrician_def)
  have counts: "?count ?two = 2" "?count ?one = 1" "?count ?other = 0" "?count Map.empty = 0"
    by (simp_all add: x)
  have states: "statusOf electrician False 2 250 = PendingRequests 2"
    "statusOf electrician False 1 250 = PendingRequests 1"
    "statusOf electrician False 0 250 = Expired"
    "statusOf electrician False 0 50 = Active"
    by (simp_all add: statusOf_def x)
  have info: "(Map.empty (r_id electrician) \<noteq> (None :: contact_info option)) = False"
    by simp
  have eq: "getStatusInfo Map.empty pr now electrician
      = render (statusOf electrician False (?count pr) now)" for pr now
    using getStatusInfo_cascade [of Map.empty pr now electrician]
    by (simp only: info)
  have two: "getStatusInfo Map.empty ?two 250 electrician = render (PendingRequests 2)"
    by (simp only: eq counts states)
  have one: "getStatusInfo Map.empty ?one 250 electrician = render (PendingRequests 1)"
    by (simp only: eq counts states)
  have other: "getStatusInfo Map.empty ?other 250 electrician = render Expired"
    by (simp only: eq counts states)
  have none: "getStatusInfo Map.empty Map.empty 50 electrician = render Active"
    by (simp only: eq counts states)
  have taken: "getStatusInfo Map.empty ?two 250 (electrician\<lparr>is_taken := True\<rparr>)
      = render AwaitingApproval"
    using getStatusInfo_cascade [of Map.empty ?two 250 electrician]
    by (simp only: info if_False)
  have t2: "status_text (render (PendingRequests 2)) = ''2 nye foresp'' @ oslash @ ''rseler''"
    by code_simp
  have t1: "status_text (render (PendingRequests 1)) = ''1 ny foresp'' @ oslash @ ''rsel''"
    by code_simp
  have "inj render"
    using getStatusInfo_cascade [of Map.empty Map.empty 50 electrician] by blast
  then have apart: "render (PendingRequests 2) \<noteq> render (PendingRequests 1)"
    "render Expired \<noteq> render AwaitingApproval"
    by (auto dest: injD)
  from two one other none taken t1 t2 apart show ?thesis
    by (simp only: simp_thms)
qed

text \<open>
  C6, amended. \<open>getStatusInfo\<close> returns exactly one of the five states. \<open>Agreed\<close> is
  returned if and only if \<open>is_taken\<close> is true and the contact information of the resource
  is loaded; a taken resource without it is \<open>AwaitingApproval\<close>; so it is one of these two
  states that is returned if and only if \<open>is_taken\<close> is true.
\<close>

theorem agreed_iff_taken_and_resolvable:
  "(\<exists>!s. getStatusInfo ci pr now r = render s)
   \<and> (getStatusInfo ci pr now r = render Agreed \<longleftrightarrow> is_taken r \<and> ci (r_id r) \<noteq> None)
   \<and> (getStatusInfo ci pr now r = render AwaitingApproval \<longleftrightarrow> is_taken r \<and> ci (r_id r) = None)
   \<and> (getStatusInfo ci pr now r \<in> {render Agreed, render AwaitingApproval} \<longleftrightarrow> is_taken r)"
proof -
  let ?s = "statusOf r (ci (r_id r) \<noteq> None) (pendingLength pr (r_id r)) now"
  have eq: "getStatusInfo ci pr now r = render ?s"
    by (rule getStatusInfo_render)
  have one: "\<exists>!s. getStatusInfo ci pr now r = render s"
    unfolding eq by (blast dest: render_inj)
  have a: "?s = Agreed \<longleftrightarrow> is_taken r \<and> ci (r_id r) \<noteq> None"
    by (simp add: statusOf_def)
  have b: "?s = AwaitingApproval \<longleftrightarrow> is_taken r \<and> ci (r_id r) = None"
    by (auto simp add: statusOf_def)
  have inj: "\<And>t. render ?s = render t \<longleftrightarrow> ?s = t"
    by (blast dest: render_inj)
  show ?thesis
    unfolding eq using one a b by (auto simp only: eq inj insert_iff empty_iff)
qed

theorem agreed_iff_taken_and_resolvable_witness:
  "getStatusInfo (Map.empty(''X'' \<mapsto> the (real_contact_info alfa))) Map.empty 50
      (electrician\<lparr>is_taken := True\<rparr>) = render Agreed
   \<and> getStatusInfo Map.empty Map.empty 50 electrician \<noteq> render Agreed"
  using agreed_iff_taken_and_resolvable
          [of "Map.empty(''X'' \<mapsto> the (real_contact_info alfa))" Map.empty 50 "electrician\<lparr>is_taken := True\<rparr>"]
        agreed_iff_taken_and_resolvable [of Map.empty Map.empty 50 electrician]
  by (simp add: electrician_def)

text \<open>
  The electrician, taken, with no contact information loaded: \<open>is_taken\<close> is true and
  the status is \<open>AwaitingApproval\<close>, not \<open>Agreed\<close>.
\<close>

theorem taken_not_agreed_counterexample:
  "is_taken (electrician\<lparr>is_taken := True\<rparr>)
   \<and> getStatusInfo Map.empty Map.empty 50 (electrician\<lparr>is_taken := True\<rparr>) \<noteq> render Agreed
   \<and> getStatusInfo Map.empty Map.empty 50 (electrician\<lparr>is_taken := True\<rparr>) = render AwaitingApproval"
  by (simp add: getStatusInfo_def electrician_def)

section \<open>Embedded messages and JavaScript values\<close>

lemma find_company_id: "find_company st i = Some c \<Longrightarrow> c_id c = i"
  by (auto simp add: find_company_def find_Some_iff)

lemma find_resource_id: "find_resource st i = Some r \<Longrightarrow> r_id r = i"
  by (auto simp add: find_resource_def find_Some_iff)

lemma embed_fields:
  assumes "embed st r = Some m"
  shows "msg_id m = m_id r" "thread_id m = m_thread_id r" "created_at m = m_created_at r"
    "read_at m = m_read_at r" "subject m = m_subject r"
    "c_id (from_company m) = from_company_id r" "c_id (to_company m) = to_company_id r"
    "r_id (resource m) = resource_id r"
    "find_company st (from_company_id r) = Some (from_company m)"
    "find_company st (to_company_id r) = Some (to_company m)"
    "find_resource st (resource_id r) = Some (resource m)"
  using assms
  by (auto simp add: embed_def find_company_id find_resource_id split: option.splits)

lemma or_else_nonempty: "b \<noteq> [] \<Longrightarrow> or_else a b \<noteq> []"
  by (simp add: or_else_def split: option.splits)

lemma or_else_Some: "k \<noteq> [] \<Longrightarrow> or_else (Some k) b = k"
  by (simp add: or_else_def)

lemma truthy_Some: "truthy s = Some u \<longleftrightarrow> s = Some u \<and> u \<noteq> []"
  by (auto simp add: truthy_def split: option.splits)

lemma white_space_lengths:
  "\<forall>w \<in> set white_space.
     w \<noteq> [] \<and> length w = (if (of_char (hd w) :: nat) < 128 then 1
                   else if (of_char (hd w) :: nat) < 224 then 2 else 3)"
  by (simp add: white_space_def)

lemma strip_Nil: "strip ws [] = []"
proof -
  have "find (\<lambda>w. w \<noteq> [] \<and> take (length w) [] = w) ws = None"
    by (auto simp add: find_None_iff)
  then show ?thesis
    by (subst strip.simps) simp
qed

lemma strip_white_space_step:
  assumes w: "w \<in> set white_space"
  shows "strip white_space (w @ t) = strip white_space t"
proof -
  let ?P = "\<lambda>v. v \<noteq> [] \<and> take (length v) (w @ t) = v"
  from w white_space_lengths have wne: "w \<noteq> []" by blast
  with w have "\<exists>v \<in> set white_space. ?P v"
    by (intro bexI [of _ w]) simp_all
  then obtain v where f: "find ?P white_space = Some v"
    by (cases "find ?P white_space") (auto simp add: find_None_iff)
  then have v: "v \<in> set white_space" "v \<noteq> []" "take (length v) (w @ t) = v"
    by (auto simp add: find_Some_iff)
  have "hd v = hd (take (length v) (w @ t))"
    using v(3) by simp
  also have "\<dots> = hd w"
    using v(2) wne by (cases v; cases w) simp_all
  finally have "length v = length w"
    using white_space_lengths v(1) w by simp
  with v(3) have "v = w" by simp
  with f show ?thesis
    by (subst strip.simps) simp
qed

lemma strip_white_space_concat:
  "set ws \<subseteq> set white_space \<Longrightarrow> strip white_space (concat ws) = []"
  by (induction ws) (simp_all add: strip_Nil strip_white_space_step)

lemma trim_blank: "set ws \<subseteq> set white_space \<Longrightarrow> trim (concat ws) = []"
  by (simp add: trim_def strip_white_space_concat strip_Nil)

lemma embed_market_request: "embed market request = Some request_msg"
  by (simp add: embed_def market_def request_def request_msg_def find_company_def
      find_resource_def alfa_def beta_def electrician_def)

section \<open>Replies\<close>

lemma trim_all_white_space: "trim all_white_space = []"
  by code_simp

lemma trim_no_break_space: "trim [CHR 0xC2, CHR 0xA0] = []"
  by code_simp

lemma trim_space: "trim '' '' = []"
  by code_simp

lemma trim_padded_reply: "trim padded_reply = ''Ja, det passer''"
  by code_simp

text \<open>
  C5, amended. With an empty or whitespace-only reply \<open>handleReply\<close> returns at once:
  nothing is written and nothing is reported. The interface and the store are as they
  were, the \<open>error\<close> of the interface included, for every selected thread, sender and
  resource and whatever the store would have answered. A reply is whitespace-only when
  \<open>trim\<close> leaves nothing of it, as is the case of every sequence of the code points that
  \<open>trim\<close> strips.
\<close>

theorem handleReply_blank_is_silent:
  assumes "trim (reply ui) = [] \<or> (\<exists>ws. set ws \<subseteq> set white_space \<and> reply ui = concat ws)"
  shows "handleReply ins new_id now ui st = (ui, st)"
proof -
  from assms have "trim (reply ui) = []"
    by (auto simp add: trim_blank)
  then show ?thesis
    by (simp add: handleReply_def split: option.splits)
qed

theorem handleReply_blank_is_silent_witness:
  "trim all_white_space = []
   \<and> handleReply Ok ''m7'' 30 (beta_inbox\<lparr>reply := all_white_space\<rparr>) market
       = (beta_inbox\<lparr>reply := all_white_space\<rparr>, market)
   \<and> handleReply Ok ''m7'' 30 (beta_inbox\<lparr>reply := [CHR 0xC2, CHR 0xA0]\<rparr>) market
       = (beta_inbox\<lparr>reply := [CHR 0xC2, CHR 0xA0]\<rparr>, market)
   \<and> handleReply Ok ''m7'' 30 (beta_inbox\<lparr>reply := []\<rparr>) market
       = (beta_inbox\<lparr>reply := []\<rparr>, market)"
proof -
  have all: "trim (reply (beta_inbox\<lparr>reply := all_white_space\<rparr>)) = []"
    by (simp add: trim_all_white_space)
  have nbsp: "trim (reply (beta_inbox\<lparr>reply := [CHR 0xC2, CHR 0xA0]\<rparr>)) = []"
    by (simp add: trim_no_break_space)
  have "set ([] :: string list) \<subseteq> set white_space"
    and "reply (beta_inbox\<lparr>reply := []\<rparr>) = concat ([] :: string list)"
    by simp_all
  then have empty: "\<exists>ws. set ws \<subseteq> set white_space \<and> reply (beta_inbox\<lparr>reply := []\<rparr>) = concat ws"
    by blast
  from handleReply_blank_is_silent [OF disjI1, OF all]
       handleReply_blank_is_silent [OF disjI1, OF nbsp]
       handleReply_blank_is_silent [OF disjI2, OF empty]
       trim_all_white_space
  show ?thesis
    by blast
qed

text \<open>
  A reply of one space, typed by Beta into the open thread: after \<open>handleReply\<close> no
  error is set and the store is as it was.
\<close>

theorem blank_reply_no_error_counterexample:
  "trim '' '' = []
   \<and> error (fst (handleReply Ok ''m3'' 30 (beta_inbox\<lparr>reply := '' ''\<rparr>) market)) = None
   \<and> snd (handleReply Ok ''m3'' 30 (beta_inbox\<lparr>reply := '' ''\<rparr>) market) = market"
  by (simp add: handleReply_def trim_space beta_inbox_def)

lemma threadInvariant_snoc:
  assumes inv: "threadInvariant st"
    and r: "r \<in> set (messages st)"
    and key: "rowKey new = rowKey r"
    and res: "resource_id new = resource_id r"
    and parts: "{from_company_id new, to_company_id new} = {from_company_id r, to_company_id r}"
  shows "threadInvariant (st\<lparr>messages := messages st @ [new]\<rparr>)"
proof -
  have old: "\<And>a. a \<in> set (messages st) \<Longrightarrow> rowKey a = rowKey r \<Longrightarrow>
      resource_id a = resource_id r
      \<and> {from_company_id a, to_company_id a} = {from_company_id r, to_company_id r}"
    using inv r unfolding threadInvariant_def by blast
  have both: "\<And>a b. a \<in> set (messages st) \<Longrightarrow> b \<in> set (messages st) \<Longrightarrow> rowKey a = rowKey b \<Longrightarrow>
      resource_id a = resource_id b
      \<and> {from_company_id a, to_company_id a} = {from_company_id b, to_company_id b}"
    using inv unfolding threadInvariant_def by blast
  show ?thesis
    unfolding threadInvariant_def
  proof (intro ballI impI)
    fix a b
    assume a: "a \<in> set (messages (st\<lparr>messages := messages st @ [new]\<rparr>))"
      and b: "b \<in> set (messages (st\<lparr>messages := messages st @ [new]\<rparr>))"
      and ab: "rowKey a = rowKey b"
    from a have a': "a \<in> set (messages st) \<or> a = new" by auto
    from b have b': "b \<in> set (messages st) \<or> b = new" by auto
    from a' b' show "resource_id a = resource_id b
      \<and> {from_company_id a, to_company_id a} = {from_company_id b, to_company_id b}"
    proof (elim disjE)
      assume "a \<in> set (messages st)" "b \<in> set (messages st)"
      with ab both [of a b] show ?thesis by simp
    next
      assume "a \<in> set (messages st)" "b = new"
      with ab key res parts old [of a] show ?thesis by simp
    next
      assume "a = new" "b \<in> set (messages st)"
      with ab key res parts old [of b] show ?thesis by simp
    next
      assume "a = new" "b = new"
      then show ?thesis by simp
    qed
  qed
qed

text \<open>
  C8. The selected message \<open>sel\<close> is a copy of the row \<open>r\<close> of the store, possibly an old
  one: it has the id, \<open>thread_id\<close>, subject, companies and resource of \<open>r\<close>. The sender
  \<open>u\<close> is one of the two companies of \<open>r\<close>, the reply is not blank, and the insert
  succeeds. Then \<open>handleReply\<close> appends exactly one row: from \<open>u\<close> to the other company of
  \<open>r\<close>, about the resource of \<open>r\<close>, in the thread of \<open>r\<close>, with the reply as typed. Every
  message of that thread, the originating one included, is about that resource and
  between these two companies, and the invariant of threads holds of the new store.
\<close>

theorem handleReply_appends_reply:
  assumes inv: "threadInvariant st"
    and r: "r \<in> set (messages st)" and rid: "m_id r \<noteq> []"
    and copy: "msg_id sel = m_id r" "thread_id sel = m_thread_id r" "subject sel = m_subject r"
      "c_id (from_company sel) = from_company_id r" "c_id (to_company sel) = to_company_id r"
      "r_id (resource sel) = resource_id r"
    and selected: "selectedMessage ui = Some sel"
    and content: "trim (reply ui) \<noteq> []"
    and user: "userCompanyId ui = Some u" "u \<noteq> []"
    and participant: "from_company_id r = u \<or> to_company_id r = u"
  shows "handleReply Ok new_id now ui st =
           (ui\<lparr>reply := []\<rparr>,
            st\<lparr>messages := messages st @
                 [\<lparr>m_id = new_id, m_subject = ''Re: '' @ m_subject r, m_content = reply ui,
                   m_created_at = now, m_read_at = None, m_thread_id = Some (rowKey r),
                   from_company_id = u,
                   to_company_id = (if from_company_id r = u then to_company_id r
                                    else from_company_id r),
                   resource_id = resource_id r\<rparr>]\<rparr>)
         \<and> (\<forall>a \<in> set (messages st). rowKey a = rowKey r \<longrightarrow>
               resource_id a = resource_id r
               \<and> {from_company_id a, to_company_id a}
                   = {u, if from_company_id r = u then to_company_id r else from_company_id r})
         \<and> threadInvariant (snd (handleReply Ok new_id now ui st))"
proof -
  let ?other = "if from_company_id r = u then to_company_id r else from_company_id r"
  let ?new = "\<lparr>m_id = new_id, m_subject = ''Re: '' @ m_subject r, m_content = reply ui,
                   m_created_at = now, m_read_at = None, m_thread_id = Some (rowKey r),
                   from_company_id = u, to_company_id = ?other, resource_id = resource_id r\<rparr>"
  from user have t: "truthy (userCompanyId ui) = Some u"
    by (simp add: truthy_Some)
  have eq: "handleReply Ok new_id now ui st = (ui\<lparr>reply := []\<rparr>, st\<lparr>messages := messages st @ [?new]\<rparr>)"
    using selected content t copy
    by (simp add: handleReply_def otherCompany_def rowKey_def)
  have parts: "{u, ?other} = {from_company_id r, to_company_id r}"
    using participant by auto
  have same: "\<forall>a \<in> set (messages st). rowKey a = rowKey r \<longrightarrow>
           resource_id a = resource_id r \<and> {from_company_id a, to_company_id a} = {u, ?other}"
    using inv r unfolding threadInvariant_def parts by blast
  have "rowKey r \<noteq> []"
    using rid by (simp add: rowKey_def or_else_nonempty)
  then have key: "rowKey ?new = rowKey r"
    by (simp add: rowKey_def or_else_Some)
  have "threadInvariant (st\<lparr>messages := messages st @ [?new]\<rparr>)"
    using inv r key
  proof (rule threadInvariant_snoc)
    show "resource_id ?new = resource_id r" by simp
    show "{from_company_id ?new, to_company_id ?new} = {from_company_id r, to_company_id r}"
      using parts by simp
  qed
  then have "threadInvariant (snd (handleReply Ok new_id now ui st))"
    by (simp add: eq)
  with eq same show ?thesis
    by blast
qed

text \<open>
  Beta replies to Alfa's request after having opened it: the row of the store is marked
  as read, Beta's copy is not. The reply has white space around it and is stored as
  typed. A reply of one no-break space writes nothing.
\<close>

theorem handleReply_appends_reply_witness:
  "threadInvariant bazaar_opened
   \<and> request\<lparr>m_read_at := Some 40\<rparr> \<in> set (messages bazaar_opened)
   \<and> embed bazaar_opened (request\<lparr>m_read_at := Some 40\<rparr>) \<noteq> Some request_msg
   \<and> selectedMessage (beta_inbox\<lparr>reply := padded_reply\<rparr>) = Some request_msg
   \<and> trim padded_reply = ''Ja, det passer''
   \<and> messages (snd (handleReply Ok ''m7'' 50 (beta_inbox\<lparr>reply := padded_reply\<rparr>) bazaar_opened)) =
       [request\<lparr>m_read_at := Some 40\<rparr>, answer, second_request, second_answer, alfa_request,
        \<lparr>m_id = ''m7'', m_subject = ''Re: Foresp'', m_content = padded_reply,
          m_created_at = 50, m_read_at = None, m_thread_id = Some ''m1'',
          from_company_id = ''B'', to_company_id = ''A'', resource_id = ''X''\<rparr>]
   \<and> threadInvariant
        (snd (handleReply Ok ''m7'' 50 (beta_inbox\<lparr>reply := padded_reply\<rparr>) bazaar_opened))
   \<and> messages (snd (handleReply Ok ''m7'' 50 (beta_inbox\<lparr>reply := [CHR 0xC2, CHR 0xA0]\<rparr>)
                       bazaar_opened))
       = messages bazaar_opened"
proof -
  let ?r = "request\<lparr>m_read_at := Some 40\<rparr>"
  let ?ui = "beta_inbox\<lparr>reply := padded_reply\<rparr>"
  have msgs: "messages bazaar_opened = [?r, answer, second_request, second_answer, alfa_request]"
    by (simp add: bazaar_opened_def)
  have inv: "threadInvariant bazaar_opened"
    unfolding threadInvariant_def msgs
    by (auto simp add: request_def answer_def second_request_def second_answer_def
        alfa_request_def rowKey_def or_else_def)
  have r: "?r \<in> set (messages bazaar_opened)" and rid: "m_id ?r \<noteq> []"
    by (simp_all add: msgs request_def)
  have stale: "embed bazaar_opened ?r \<noteq> Some request_msg"
    by (simp add: embed_def bazaar_opened_def bazaar_def request_def request_msg_def
        find_company_def find_resource_def alfa_def beta_def electrician_def)
  have copy: "msg_id request_msg = m_id ?r" "thread_id request_msg = m_thread_id ?r"
      "subject request_msg = m_subject ?r"
      "c_id (from_company request_msg) = from_company_id ?r"
      "c_id (to_company request_msg) = to_company_id ?r"
      "r_id (resource request_msg) = resource_id ?r"
    by (simp_all add: request_msg_def request_def alfa_def beta_def electrician_def)
  have selected: "selectedMessage ?ui = Some request_msg"
    by (simp add: beta_inbox_def)
  have content: "trim (reply ?ui) \<noteq> []"
    by (simp add: trim_padded_reply)
  have user: "userCompanyId ?ui = Some ''B''" "''B'' \<noteq> []"
    by (simp_all add: beta_inbox_def)
  have participant: "from_company_id ?r = ''B'' \<or> to_company_id ?r = ''B''"
    by (simp add: request_def)
  note inst = handleReply_appends_reply
         [OF inv r rid copy selected content user participant, of "''m7''" 50]
  from inst have eq: "handleReply Ok ''m7'' 50 ?ui bazaar_opened =
           (?ui\<lparr>reply := []\<rparr>,
            bazaar_opened\<lparr>messages := messages bazaar_opened @
                 [\<lparr>m_id = ''m7'', m_subject = ''Re: '' @ m_subject ?r,
                   m_content = reply ?ui,
                   m_created_at = 50, m_read_at = None, m_thread_id = Some (rowKey ?r),
                   from_company_id = ''B'',
                   to_company_id = (if from_company_id ?r = ''B'' then to_company_id ?r
                                    else from_company_id ?r),
                   resource_id = resource_id ?r\<rparr>]\<rparr>)"
    by (rule conjunct1)
  have appended: "messages (snd (handleReply Ok ''m7'' 50 ?ui bazaar_opened)) =
       [?r, answer, second_request, second_answer, alfa_request,
        \<lparr>m_id = ''m7'', m_subject = ''Re: Foresp'', m_content = padded_reply,
          m_created_at = 50, m_read_at = None, m_thread_id = Some ''m1'',
          from_company_id = ''B'', to_company_id = ''A'', resource_id = ''X''\<rparr>]"
    by (subst eq) (simp add: msgs request_def rowKey_def or_else_def)
  from inst have kept: "threadInvariant (snd (handleReply Ok ''m7'' 50 ?ui bazaar_opened))"
    by blast
  have blank: "messages (snd (handleReply Ok ''m7'' 50 (beta_inbox\<lparr>reply := [CHR 0xC2, CHR 0xA0]\<rparr>)
                       bazaar_opened)) = messages bazaar_opened"
    by (simp add: handleReply_def beta_inbox_def trim_no_break_space)
  from inv r stale selected trim_padded_reply appended kept blank show ?thesis
    by blast
qed

section \<open>Taking a resource\<close>

lemma keeps_taken_refl: "keeps_taken st st"
  by (simp add: keeps_taken_def list_all2_same list_all_iff)

lemma keeps_taken_trans:
  assumes "keeps_taken a b" "keeps_taken b c"
  shows "keeps_taken a c"
proof -
  have "list_all2 (\<lambda>x z. z = x \<or> z = x\<lparr>is_taken := True\<rparr>) (resources a) (resources c)"
    using assms unfolding keeps_taken_def
  proof (rule list_all2_trans [rotated])
    fix x y z :: resource
    assume "y = x \<or> y = x\<lparr>is_taken := True\<rparr>" "z = y \<or> z = y\<lparr>is_taken := True\<rparr>"
    then show "z = x \<or> z = x\<lparr>is_taken := True\<rparr>" by auto
  qed
  then show ?thesis by (simp add: keeps_taken_def)
qed

lemma keeps_taken_same: "resources st' = resources st \<Longrightarrow> keeps_taken st st'"
  by (simp add: keeps_taken_def list_all2_same list_all_iff)

lemma keeps_taken_set_taken: "keeps_taken st (set_taken i st)"
  by (simp add: keeps_taken_def set_taken_def list_all2_map2 list_all2_same list_all_iff)

lemma resources_stamp: "resources (stamp now i st) = resources st"
  by (simp add: stamp_def)

lemma resources_fold_stamp: "resources (fold (stamp now) is st) = resources st"
  by (induction "is" arbitrary: st) (simp_all add: resources_stamp)

lemma resources_loadThread: "resources (snd (loadThread sel upd now k ui st)) = resources st"
  by (cases sel) (simp_all add: loadThread_def Let_def resources_fold_stamp)

lemma resources_handleReply: "resources (snd (handleReply ins new_id now ui st)) = resources st"
  by (cases ins) (simp_all add: handleReply_def split: option.splits)

lemma resources_handleShareContact:
  "resources (snd (handleShareContact i1 i2 new_id now k ui st)) = resources st"
  by (cases i1; cases i2) (simp_all add: handleShareContact_def Let_def split: option.splits)

lemma handleAcceptResource_cases:
  "handleAcceptResource u i st = st
   \<or> (\<not> taken st i \<and> find_resource st i \<noteq> None \<and> handleAcceptResource u i st = set_taken i st)"
  by (auto simp add: handleAcceptResource_def accept_resource_def taken_def
      split: option.splits sum.splits if_splits)

lemma handleAcceptResource_accepts:
  assumes "u = Some c" and "c \<noteq> []" and "find_resource st i \<noteq> None" and "\<not> taken st i"
  shows "handleAcceptResource u i st = set_taken i st"
  using assms
  by (auto simp add: handleAcceptResource_def accept_resource_def truthy_def taken_def)

lemma keeps_taken_apply_op: "keeps_taken st (apply_op x st)"
proof (cases x)
  case (OpLoadThread sel upd now k ui)
  then show ?thesis by (simp add: keeps_taken_same resources_loadThread)
next
  case (OpReply ins new_id now ui)
  then show ?thesis by (simp add: keeps_taken_same resources_handleReply)
next
  case (OpShareContact i1 i2 new_id now k ui)
  then show ?thesis by (simp add: keeps_taken_same resources_handleShareContact)
next
  case (OpMarkAsTaken upd i ui)
  then show ?thesis
    by (cases upd) (simp_all add: handleMarkAsTaken_def keeps_taken_set_taken keeps_taken_refl)
next
  case (OpAcceptResource u i)
  with handleAcceptResource_cases [of u i st] show ?thesis
    by (auto simp add: keeps_taken_set_taken keeps_taken_refl)
qed

lemma keeps_taken_fold: "keeps_taken st (fold apply_op ops st)"
proof (induction ops arbitrary: st)
  case Nil
  show ?case by (simp add: keeps_taken_refl)
next
  case (Cons x ops)
  have "keeps_taken st (apply_op x st)" by (rule keeps_taken_apply_op)
  moreover have "keeps_taken (apply_op x st) (fold apply_op ops (apply_op x st))" by (rule Cons.IH)
  ultimately show ?case by (simp add: keeps_taken_trans)
qed

lemma set_taken_all: "list_all (\<lambda>r. r_id r = i \<longrightarrow> is_taken r) (resources (set_taken i st))"
proof -
  have "list_all (\<lambda>r. r_id r = i \<longrightarrow> is_taken r)
          (map (\<lambda>r. if r_id r = i then r\<lparr>is_taken := True\<rparr> else r) rs)"
    for rs :: "resource list"
    by (induction rs) simp_all
  then show ?thesis
    by (simp add: set_taken_def)
qed

lemma find_set_taken:
  "find (\<lambda>r. r_id r = i) (map (\<lambda>r. if r_id r = i then r\<lparr>is_taken := True\<rparr> else r) rs)
     = map_option (\<lambda>r. r\<lparr>is_taken := True\<rparr>) (find (\<lambda>r. r_id r = i) rs)"
  by (induction rs) simp_all

lemma taken_set_taken: "find_resource st i \<noteq> None \<Longrightarrow> taken (set_taken i st) i"
  by (cases "find (\<lambda>r. r_id r = i) (resources st)")
     (simp_all add: taken_def find_resource_def set_taken_def find_set_taken)

text \<open>
  C3, amended. \<open>handleMarkAsTaken\<close> does not fail on a resource that is already taken:
  its update carries no condition on \<open>is_taken\<close> and, answered by the store, it succeeds
  and leaves \<open>is_taken\<close> true on the resource. \<open>handleAcceptResource\<close> leaves the store as
  it is or, on a resource not yet taken, sets \<open>is_taken\<close>; for a signed-in company and a
  resource of the store that is not taken it does set it. Whatever the components write,
  in any order and from any interface state, every resource row stays as it is or gets
  \<open>is_taken\<close> set: nothing sets it back.
\<close>

theorem is_taken_only_ever_set:
  "handleMarkAsTaken Ok i ui st = (ui, set_taken i st)
   \<and> list_all (\<lambda>r. r_id r = i \<longrightarrow> is_taken r) (resources (set_taken i st))
   \<and> (find_resource st i \<noteq> None \<longrightarrow> taken (set_taken i st) i)
   \<and> (handleAcceptResource u i st = st
      \<or> (\<not> taken st i \<and> find_resource st i \<noteq> None \<and> handleAcceptResource u i st = set_taken i st))
   \<and> (u = Some c \<and> c \<noteq> [] \<and> find_resource st i \<noteq> None \<and> \<not> taken st i
        \<longrightarrow> handleAcceptResource u i st = set_taken i st)
   \<and> keeps_taken st (fold apply_op ops st)"
  using handleAcceptResource_cases [of u i st] handleAcceptResource_accepts [of u c st i]
  by (simp add: handleMarkAsTaken_def set_taken_all taken_set_taken keeps_taken_fold)

theorem is_taken_only_ever_set_witness:
  "find_resource market ''X'' \<noteq> None
   \<and> \<not> taken market ''X''
   \<and> taken (set_taken ''X'' market) ''X''
   \<and> handleMarkAsTaken Ok ''X'' beta_inbox market = (beta_inbox, set_taken ''X'' market)
   \<and> handleAcceptResource (Some ''A'') ''X'' market = set_taken ''X'' market
   \<and> keeps_taken market
       (fold apply_op [OpAcceptResource (Some ''A'') ''X'', OpMarkAsTaken Ok ''X'' beta_inbox] market)"
proof -
  have found: "find_resource market ''X'' \<noteq> None"
    by (simp add: find_resource_def market_def electrician_def)
  have free: "\<not> taken market ''X''"
    by (simp add: taken_def find_resource_def market_def electrician_def)
  have changed: "handleAcceptResource (Some ''A'') ''X'' market \<noteq> market"
    by (simp add: handleAcceptResource_def accept_resource_def truthy_def find_resource_def
        market_def electrician_def set_taken_def)
  from is_taken_only_ever_set [of "''X''" beta_inbox market "Some ''A''" "''A''"
      "[OpAcceptResource (Some ''A'') ''X'', OpMarkAsTaken Ok ''X'' beta_inbox]"]
    found free changed
  show ?thesis by blast
qed

text \<open>
  Beta's inbox still shows the button (its copy of the resource is not taken, the contact
  is shared) while the resource is taken in the store: \<open>handleMarkAsTaken\<close> succeeds, with
  no error, and the store is as before.
\<close>

theorem mark_taken_twice_counterexample:
  "showsMarkAsTaken stale_inbox
   \<and> taken (set_taken ''X'' market) ''X''
   \<and> handleMarkAsTaken Ok ''X'' stale_inbox (set_taken ''X'' market)
       = (stale_inbox, set_taken ''X'' market)"
  by (simp add: showsMarkAsTaken_def stale_inbox_def beta_inbox_def request_msg_def
      or_else_def electrician_def handleMarkAsTaken_def set_taken_def taken_def
      find_resource_def market_def)

section \<open>Sharing contact information\<close>




section \<open>Pending requests\<close>

lemma foldl_groupStep:
  "foldl groupStep acc msgs i =
     (if filter (\<lambda>m. pr_resource_id m = i) msgs = [] then acc i
      else Some ((case acc i of None \<Rightarrow> [] | Some ms \<Rightarrow> ms) @ filter (\<lambda>m. pr_resource_id m = i) msgs))"
proof (induction msgs arbitrary: acc)
  case Nil
  show ?case by simp
next
  case (Cons m msgs)
  let ?f = "\<lambda>xs. filter (\<lambda>m. pr_resource_id m = i) xs"
  have "foldl groupStep acc (m # msgs) i = foldl groupStep (groupStep acc m) msgs i"
    by simp
  also have "\<dots> = (if ?f msgs = [] then groupStep acc m i
      else Some ((case groupStep acc m i of None \<Rightarrow> [] | Some ms \<Rightarrow> ms) @ ?f msgs))"
    by (rule Cons.IH)
  also have "\<dots> = (if ?f (m # msgs) = [] then acc i
      else Some ((case acc i of None \<Rightarrow> [] | Some ms \<Rightarrow> ms) @ ?f (m # msgs)))"
    by (simp add: groupStep_def)
  finally show ?case .
qed

lemma pendingLength_groupByResource:
  "pendingLength (groupByResource msgs) i = length (filter (\<lambda>m. pr_resource_id m = i) msgs)"
  by (simp add: pendingLength_def groupByResource_def foldl_groupStep)

lemma groupByResource_None:
  "groupByResource msgs i = None \<longleftrightarrow> filter (\<lambda>m. pr_resource_id m = i) msgs = []"
  by (simp add: groupByResource_def foldl_groupStep)

lemma length_filter_withCompanyInfo:
  "length (filter (\<lambda>m. pr_resource_id m = i) (map (withCompanyInfo lookup st) (order_desc rows)))
     = length (filter (\<lambda>r. resource_id r = i) rows)"
proof -
  have "filter (\<lambda>m. pr_resource_id m = i) (map (withCompanyInfo lookup st) (order_desc rows))
        = map (withCompanyInfo lookup st) (filter (\<lambda>r. resource_id r = i) (order_desc rows))"
    by (simp add: filter_map comp_def withCompanyInfo_def)
  also have "filter (\<lambda>r. resource_id r = i) (order_desc rows)
        = order_desc (filter (\<lambda>r. resource_id r = i) rows)"
    by (simp add: order_desc_def filter_sort)
  finally show ?thesis
    by (simp add: order_desc_def)
qed

text \<open>
  C10. For a signed-in company \<open>u\<close> and a select that succeeds, the entry of
  \<open>pendingRequests\<close> for a resource holds as many requests as the store has messages to
  \<open>u\<close> about that resource with \<open>thread_id\<close> null and \<open>read_at\<close> null. That number is
  what \<open>getStatusInfo\<close> shows for a resource that is not taken; replies and read requests
  do not count, and a resource whose messages to \<open>u\<close> are all replies or read has no
  entry at all.
\<close>

theorem pending_requests_counted:
  assumes "u \<noteq> []"
  shows "pendingLength (loadPendingRequests Ok lookup st (Some u) prev) i
           = length (filter (\<lambda>r. to_company_id r = u \<and> m_thread_id r = None \<and> m_read_at r = None
                                  \<and> resource_id r = i) (messages st))
         \<and> getStatusInfo ci (loadPendingRequests Ok lookup st (Some u) prev) now
               (r\<lparr>r_id := i, is_taken := False\<rparr>)
           = (let n = length (filter (\<lambda>r. to_company_id r = u \<and> m_thread_id r = None
                                          \<and> m_read_at r = None \<and> resource_id r = i) (messages st))
              in render (if n > 0 then PendingRequests n
                         else if p_to (period r) < now then Expired else Active))
         \<and> ((\<forall>r \<in> set (messages st). to_company_id r = u \<and> resource_id r = i
                \<longrightarrow> m_thread_id r \<noteq> None \<or> m_read_at r \<noteq> None)
              \<longrightarrow> loadPendingRequests Ok lookup st (Some u) prev i = None)"
proof -
  let ?n = "length (filter (\<lambda>r. to_company_id r = u \<and> m_thread_id r = None \<and> m_read_at r = None
                                  \<and> resource_id r = i) (messages st))"
  let ?pr = "loadPendingRequests Ok lookup st (Some u) prev"
  have pr: "?pr = groupByResource (map (withCompanyInfo lookup st)
                     (order_desc (filter (isPendingRequest u) (messages st))))"
    using assms by (simp add: loadPendingRequests_def truthy_def)
  have n: "pendingLength ?pr i = ?n"
    unfolding pr pendingLength_groupByResource length_filter_withCompanyInfo
    by (simp add: isPendingRequest_def conj_commute conj_left_commute cong: conj_cong)
  have status: "getStatusInfo ci ?pr now (r\<lparr>r_id := i, is_taken := False\<rparr>)
      = render (if ?n > 0 then PendingRequests ?n else if p_to (period r) < now then Expired else Active)"
    by (simp add: getStatusInfo_render statusOf_def n)
  have none: "?pr i = None" if "\<forall>r \<in> set (messages st). to_company_id r = u \<and> resource_id r = i
                \<longrightarrow> m_thread_id r \<noteq> None \<or> m_read_at r \<noteq> None"
  proof -
    from that have "?n = 0"
      by (auto simp add: filter_empty_conv)
    with n have "pendingLength ?pr i = 0" by simp
    then have "length (filter (\<lambda>m. pr_resource_id m = i) (map (withCompanyInfo lookup st)
                     (order_desc (filter (isPendingRequest u) (messages st))))) = 0"
      unfolding pr pendingLength_groupByResource .
    then have "filter (\<lambda>m. pr_resource_id m = i) (map (withCompanyInfo lookup st)
                     (order_desc (filter (isPendingRequest u) (messages st)))) = []"
      by (simp only: length_0_conv)
    then show ?thesis
      unfolding pr by (simp only: groupByResource_None)
  qed
  from n status none show ?thesis
    by (simp add: Let_def)
qed

theorem pending_requests_counted_witness:
  "pendingLength (loadPendingRequests Ok (\<lambda>_. Ok) market (Some ''B'') Map.empty) ''X'' = 1
   \<and> getStatusInfo Map.empty (loadPendingRequests Ok (\<lambda>_. Ok) market (Some ''B'') Map.empty) 50
         electrician = render (PendingRequests 1)
   \<and> loadPendingRequests Ok (\<lambda>_. Ok) market (Some ''A'') Map.empty ''X'' = None"
proof -
  have b: "''B'' \<noteq> []" and a: "''A'' \<noteq> []"
    by simp_all
  have replies: "\<forall>r \<in> set (messages market). to_company_id r = ''A'' \<and> resource_id r = ''X''
                \<longrightarrow> m_thread_id r \<noteq> None \<or> m_read_at r \<noteq> None"
    by (simp add: market_def request_def answer_def)
  have e: "electrician\<lparr>r_id := ''X'', is_taken := False\<rparr> = electrician"
    by (simp add: electrician_def)
  have n: "length (filter (\<lambda>r. to_company_id r = ''B'' \<and> m_thread_id r = None \<and> m_read_at r = None
                                  \<and> resource_id r = ''X'') (messages market)) = 1"
    by (simp add: market_def request_def answer_def)
  from pending_requests_counted [OF b, of "\<lambda>_. Ok" market Map.empty "''X''" Map.empty 50 electrician]
  have "pendingLength (loadPendingRequests Ok (\<lambda>_. Ok) market (Some ''B'') Map.empty) ''X'' = 1"
    and "getStatusInfo Map.empty (loadPendingRequests Ok (\<lambda>_. Ok) market (Some ''B'') Map.empty) 50
         electrician = render (PendingRequests 1)"
    unfolding e n by (simp_all add: Let_def)
  moreover from pending_requests_counted [OF a, of "\<lambda>_. Ok" market Map.empty "''X''" Map.empty 50 electrician]
    replies
  have "loadPendingRequests Ok (\<lambda>_. Ok) market (Some ''A'') Map.empty ''X'' = None"
    by blast
  ultimately show ?thesis
    by blast
qed

section \<open>Names shown in the inbox\<close>

lemma getDisplayName_undisclosed:
  assumes "shared (threadKey m) \<noteq> Some True"
  shows "getDisplayName shared m isFromUser
           = (if isFromUser then ''Du'' else anonymous_id (to_company m))"
  using assms by (simp add: getDisplayName_def threadKey_def Let_def split: option.splits)

lemma getDisplayName_real_name_only_if_disclosed:
  assumes "getDisplayName shared m isFromUser \<noteq> ''Du''"
    and "getDisplayName shared m isFromUser \<noteq> anonymous_id (to_company m)"
  shows "shared (threadKey m) = Some True
         \<and> (\<exists>info. real_contact_info (to_company m) = Some info
                  \<and> getDisplayName shared m isFromUser = company_name info)"
  using assms by (auto simp add: getDisplayName_def threadKey_def Let_def split: option.splits if_splits)

lemma undisclosed_independent_of_contact_details:
  assumes "shared (threadKey m) \<noteq> Some True"
  shows "getDisplayName shared
           (m\<lparr>from_company := (from_company m)\<lparr>real_contact_info := x\<rparr>,
              to_company := (to_company m)\<lparr>real_contact_info := y\<rparr>\<rparr>) isFromUser
         = getDisplayName shared m isFromUser"
  using assms by (simp add: getDisplayName_def threadKey_def Let_def split: option.splits)

lemma threadContactBlock_undisclosed:
  assumes "contactShared ui (threadKey sel) \<noteq> Some True"
  shows "threadContactBlock ui sel m = []"
  using assms by (simp add: threadContactBlock_def threadKey_def split: option.splits)

lemma foldl_shared:
  "foldl (\<lambda>acc curr. acc(s_thread_id curr \<mapsto> True)) acc rows k
     = (if k \<in> s_thread_id ` set rows then Some True else acc k)"
  by (induction rows arbitrary: acc) auto

lemma loadContactSharing_keys:
  assumes "userCompanyId ui = Some u" and "u \<noteq> []"
  shows "contactShared (loadContactSharing Ok st ui) k
           = (if \<exists>s \<in> set (thread_contact_sharing st).
                   (s_from_company_id s = u \<or> s_to_company_id s = u) \<and> s_thread_id s = k
              then Some True else None)"
  using assms by (auto simp add: loadContactSharing_def truthy_def foldl_shared)

lemma no_disclosure_no_real_name:
  assumes "userCompanyId ui = Some u" and "u \<noteq> []"
    and "\<forall>s \<in> set (thread_contact_sharing st). s_thread_id s \<noteq> threadKey m"
  shows "getDisplayName (contactShared (loadContactSharing Ok st ui)) m isFromUser
           = (if isFromUser then ''Du'' else anonymous_id (to_company m))"
proof -
  from assms have "contactShared (loadContactSharing Ok st ui) (threadKey m) = None"
    by (simp add: loadContactSharing_keys)
  then show ?thesis
    by (simp add: getDisplayName_undisclosed)
qed

text \<open>
  The contact block of the open thread is keyed on the thread of the selected message,
  not on the thread of the message it stands under. Beta has selected thread \<open>m4\<close>, whose
  contact is shared with Gamma, while the open thread still holds Alfa's request of thread
  \<open>m1\<close>, which has no disclosure: Alfa's contact details are shown under it.
\<close>

lemma contact_block_follows_selected_thread:
  "contactShared beta_switching (threadKey request_msg) = None
   \<and> contactShared beta_switching (threadKey second_request_msg) = Some True
   \<and> request_msg \<in> set (selectedThread beta_switching)
   \<and> threadContactBlock beta_switching second_request_msg request_msg
       = [''Alfa AS'', ''post@alfa.no'', ''11111111'', ''Oslo'']"
  by (simp add: threadContactBlock_def beta_switching_def request_msg_def second_request_msg_def
      threadKey_def or_else_def alfa_def)

text \<open>
  C4. Alfa looks at Beta's answer, a message it received, in a thread with no disclosure.
  The line of the list that should name the sender, \<open>Fra:\<close>, and the name over the
  message in the open thread both show the \<open>anonymous_id\<close> of the recipient, Alfa itself,
  and not that of Beta: \<open>getDisplayName\<close> takes \<open>message.to_company\<close> whenever the message
  is not from the user. No contact detail is shown.
\<close>

theorem received_message_shows_own_pseudonym:
  "userCompanyId alfa_inbox = Some (c_id (to_company answer_msg))
   \<and> contactShared alfa_inbox (threadKey answer_msg) = None
   \<and> listLabel alfa_inbox answer_msg = ''Fra: Firma-1''
   \<and> threadLabel alfa_inbox answer_msg = ''Firma-1''
   \<and> anonymous_id (from_company answer_msg) = ''Firma-2''
   \<and> threadContactBlock alfa_inbox answer_msg answer_msg = []"
  by (simp add: listLabel_def threadLabel_def getDisplayName_def threadContactBlock_def Let_def
      alfa_inbox_def answer_msg_def threadKey_def or_else_def alfa_def beta_def)

section \<open>Opening a thread\<close>

lemma set_validMessages:
  "set (validMessages st rows) = {m. \<exists>r \<in> set rows. embed st r = Some m}"
  by (induction rows) (auto simp add: validMessages_def split: option.splits)

lemma length_validMessages:
  "length (validMessages st rows) = length (filter (\<lambda>r. embed st r \<noteq> None) rows)"
  by (induction rows) (auto simp add: validMessages_def split: option.splits)

lemma sorted_validMessages:
  "sorted (map m_created_at rows) \<Longrightarrow> sorted (map created_at (validMessages st rows))"
proof (induction rows)
  case Nil
  show ?case by (simp add: validMessages_def)
next
  case (Cons r rows)
  then have rest: "sorted (map created_at (validMessages st rows))"
    and le: "\<forall>x \<in> set rows. m_created_at r \<le> m_created_at x"
    by simp_all
  show ?case
  proof (cases "embed st r")
    case None
    with rest show ?thesis by (simp add: validMessages_def)
  next
    case (Some m)
    have "created_at m \<le> created_at m'" if "m' \<in> set (validMessages st rows)" for m'
    proof -
      from that obtain r' where "r' \<in> set rows" "embed st r' = Some m'"
        by (auto simp add: set_validMessages)
      with le embed_fields(3) [OF Some] embed_fields(3) [of st r' m'] show ?thesis
        by simp
    qed
    with rest Some show ?thesis
      by (simp add: validMessages_def)
  qed
qed

lemma fold_stamp:
  "fold (stamp now) ids st =
     st\<lparr>messages := map (\<lambda>r. if m_id r \<in> set ids then r\<lparr>m_read_at := Some now\<rparr> else r) (messages st)\<rparr>"
proof (induction ids arbitrary: st)
  case Nil
  show ?case by simp
next
  case (Cons i ids)
  have "fold (stamp now) (i # ids) st = fold (stamp now) ids (stamp now i st)"
    by simp
  also have "\<dots> = (stamp now i st)\<lparr>messages :=
      map (\<lambda>r. if m_id r \<in> set ids then r\<lparr>m_read_at := Some now\<rparr> else r) (messages (stamp now i st))\<rparr>"
    by (rule Cons.IH)
  also have "\<dots> = st\<lparr>messages :=
      map (\<lambda>r. if m_id r \<in> set (i # ids) then r\<lparr>m_read_at := Some now\<rparr> else r) (messages st)\<rparr>"
    by (simp add: stamp_def comp_def)
  finally show ?case .
qed

lemma embed_same_tables:
  assumes "companies st' = companies st" and "resources st' = resources st"
  shows "embed st' r = None \<longleftrightarrow> embed st r = None"
proof -
  have "find_company st' i = find_company st i" and "find_resource st' i = find_resource st i" for i
    using assms by (simp_all add: find_company_def find_resource_def)
  then have "embed st' r = embed st r"
    by (simp only: embed_def)
  then show ?thesis by simp
qed

lemma loadThread_store:
  assumes "distinct (map m_id (messages st))"
  shows "snd (loadThread Ok upd now k ui st) =
           st\<lparr>messages := map (\<lambda>r. if stampedBy k ui st r \<and> upd (m_id r) = Ok
                                   then r\<lparr>m_read_at := Some now\<rparr> else r) (messages st)\<rparr>"
proof -
  let ?valid = "validMessages st (order_asc (filter (inThread k) (messages st)))"
  let ?ids = "map msg_id (filter (\<lambda>m. upd (msg_id m) = Ok) (filter (isUnreadFor (userCompanyId ui)) ?valid))"
  have inj: "inj_on m_id (set (messages st))"
    using assms by (simp add: distinct_map)
  have mem: "m_id r \<in> set ?ids \<longleftrightarrow> stampedBy k ui st r \<and> upd (m_id r) = Ok"
    if r: "r \<in> set (messages st)" for r
  proof
    assume "m_id r \<in> set ?ids"
    then obtain m where m: "m \<in> set ?valid" "isUnreadFor (userCompanyId ui) m"
        "upd (msg_id m) = Ok" "msg_id m = m_id r"
      by auto
    from m(1) obtain r' where r': "r' \<in> set (messages st)" "inThread k r'" "embed st r' = Some m"
      by (auto simp add: set_validMessages order_asc_def)
    from embed_fields(1) [OF r'(3)] m(4) have "m_id r' = m_id r" by simp
    with inj r r'(1) have "r' = r" by (auto dest: inj_onD)
    with r' m embed_fields [OF r'(3)] show "stampedBy k ui st r \<and> upd (m_id r) = Ok"
      by (simp add: stampedBy_def isUnreadFor_def)
  next
    assume a: "stampedBy k ui st r \<and> upd (m_id r) = Ok"
    then obtain m where m: "embed st r = Some m"
      by (auto simp add: stampedBy_def)
    with a r have "m \<in> set ?valid"
      by (auto simp add: set_validMessages order_asc_def stampedBy_def)
    moreover from a m embed_fields [OF m] have "isUnreadFor (userCompanyId ui) m" "upd (msg_id m) = Ok"
      by (simp_all add: stampedBy_def isUnreadFor_def)
    ultimately have "msg_id m \<in> set ?ids" by simp
    with embed_fields(1) [OF m] show "m_id r \<in> set ?ids" by simp
  qed
  have "snd (loadThread Ok upd now k ui st) = fold (stamp now) ?ids st"
    by (simp add: loadThread_def Let_def)
  also have "\<dots> = st\<lparr>messages :=
      map (\<lambda>r. if m_id r \<in> set ?ids then r\<lparr>m_read_at := Some now\<rparr> else r) (messages st)\<rparr>"
    by (rule fold_stamp)
  also have "map (\<lambda>r. if m_id r \<in> set ?ids then r\<lparr>m_read_at := Some now\<rparr> else r) (messages st)
      = map (\<lambda>r. if stampedBy k ui st r \<and> upd (m_id r) = Ok
                                   then r\<lparr>m_read_at := Some now\<rparr> else r) (messages st)"
  proof (rule map_cong [OF refl])
    fix r assume "r \<in> set (messages st)"
    then have "m_id r \<in> set ?ids \<longleftrightarrow> stampedBy k ui st r \<and> upd (m_id r) = Ok"
      by (rule mem)
    then show "(if m_id r \<in> set ?ids then r\<lparr>m_read_at := Some now\<rparr> else r)
        = (if stampedBy k ui st r \<and> upd (m_id r) = Ok then r\<lparr>m_read_at := Some now\<rparr> else r)"
      by (simp only:)
  qed
  finally show ?thesis .
qed

lemma loadThread_again:
  assumes d: "distinct (map m_id (messages st))" and ok: "\<forall>i. upd i = Ok"
    and u: "userCompanyId ui' = userCompanyId ui"
  shows "snd (loadThread Ok upd' now' k ui' (snd (loadThread Ok upd now k ui st)))
           = snd (loadThread Ok upd now k ui st)"
proof -
  let ?f = "\<lambda>r. if stampedBy k ui st r then r\<lparr>m_read_at := Some now\<rparr> else r"
  let ?st' = "snd (loadThread Ok upd now k ui st)"
  have st': "?st' = st\<lparr>messages := map ?f (messages st)\<rparr>"
    using loadThread_store [OF d, of upd now k ui] ok by simp
  have ids: "map m_id (messages ?st') = map m_id (messages st)"
    unfolding st' by (simp add: comp_def)
  with d have d': "distinct (map m_id (messages ?st'))" by simp
  have same: "embed ?st' r = None \<longleftrightarrow> embed st r = None" for r
    by (rule embed_same_tables) (simp_all add: st')
  have no: "\<not> stampedBy k ui' ?st' r'" if "r' \<in> set (messages ?st')" for r'
  proof -
    from that obtain r where r: "r \<in> set (messages st)" "r' = ?f r"
      unfolding st' by auto
    show ?thesis
    proof (cases "stampedBy k ui st r")
      case True
      with r show ?thesis by (simp add: stampedBy_def)
    next
      case False
      with r same [of r] u show ?thesis by (simp add: stampedBy_def)
    qed
  qed
  have "snd (loadThread Ok upd' now' k ui' ?st') =
      ?st'\<lparr>messages := map (\<lambda>r. if stampedBy k ui' ?st' r \<and> upd' (m_id r) = Ok
                                   then r\<lparr>m_read_at := Some now'\<rparr> else r) (messages ?st')\<rparr>"
    by (rule loadThread_store [OF d'])
  also have "map (\<lambda>r. if stampedBy k ui' ?st' r \<and> upd' (m_id r) = Ok
                                   then r\<lparr>m_read_at := Some now'\<rparr> else r) (messages ?st')
      = map (\<lambda>r. r) (messages ?st')"
    by (rule map_cong [OF refl]) (simp add: no)
  finally show ?thesis by simp
qed

lemma embed_resolves:
  "embed st r \<noteq> None \<longleftrightarrow>
     from_company_id r \<in> c_id ` set (companies st)
     \<and> to_company_id r \<in> c_id ` set (companies st)
     \<and> resource_id r \<in> r_id ` set (resources st)"
proof -
  have c: "find_company st i \<noteq> None \<longleftrightarrow> i \<in> c_id ` set (companies st)" for i
    by (auto simp add: find_company_def find_None_iff)
  have x: "find_resource st i \<noteq> None \<longleftrightarrow> i \<in> r_id ` set (resources st)" for i
    by (auto simp add: find_resource_def find_None_iff)
  have "embed st r \<noteq> None \<longleftrightarrow>
      find_company st (from_company_id r) \<noteq> None \<and> find_company st (to_company_id r) \<noteq> None
      \<and> find_resource st (resource_id r) \<noteq> None"
    by (simp add: embed_def split: option.splits)
  then show ?thesis
    by (simp only: c x)
qed

text \<open>
  C7, amended. The ids of the messages are distinct, the select succeeds and the store
  accepts every update. Then \<open>loadThread k\<close> shows exactly the rows whose id or whose
  \<open>thread_id\<close> is \<open>k\<close> and whose two companies and resource are rows of the store, each
  once and in ascending order of \<open>created_at\<close>; it sets \<open>read_at\<close> to the current time on
  exactly those of them that are addressed to the company of the interface and have
  \<open>read_at\<close> null, and changes nothing else in the store; and a second \<open>loadThread k\<close> for
  the same company, at any time and whatever the store answers to its updates, changes
  nothing.
\<close>

theorem loadThread_returns_and_stamps:
  assumes d: "distinct (map m_id (messages st))" and ok: "\<forall>i. upd i = Ok"
  shows "set (selectedThread (fst (loadThread Ok upd now k ui st)))
           = {m. \<exists>r \<in> set (messages st).
                   (m_id r = k \<or> m_thread_id r = Some k) \<and> embed st r = Some m}
         \<and> length (selectedThread (fst (loadThread Ok upd now k ui st)))
           = length (filter (\<lambda>r. (m_id r = k \<or> m_thread_id r = Some k)
                                  \<and> from_company_id r \<in> c_id ` set (companies st)
                                  \<and> to_company_id r \<in> c_id ` set (companies st)
                                  \<and> resource_id r \<in> r_id ` set (resources st)) (messages st))
         \<and> sorted (map created_at (selectedThread (fst (loadThread Ok upd now k ui st))))
         \<and> snd (loadThread Ok upd now k ui st)
           = st\<lparr>messages :=
                  map (\<lambda>r. if (m_id r = k \<or> m_thread_id r = Some k)
                               \<and> from_company_id r \<in> c_id ` set (companies st)
                               \<and> to_company_id r \<in> c_id ` set (companies st)
                               \<and> resource_id r \<in> r_id ` set (resources st)
                               \<and> m_read_at r = None
                               \<and> Some (to_company_id r) = userCompanyId ui
                            then r\<lparr>m_read_at := Some now\<rparr> else r)
                      (messages st)\<rparr>
         \<and> (userCompanyId ui' = userCompanyId ui \<longrightarrow>
              snd (loadThread Ok upd' now' k ui' (snd (loadThread Ok upd now k ui st)))
                = snd (loadThread Ok upd now k ui st))"
proof -
  let ?rows = "order_asc (filter (inThread k) (messages st))"
  let ?resolves = "\<lambda>r. from_company_id r \<in> c_id ` set (companies st)
                        \<and> to_company_id r \<in> c_id ` set (companies st)
                        \<and> resource_id r \<in> r_id ` set (resources st)"
  have sel: "selectedThread (fst (loadThread Ok upd now k ui st)) = validMessages st ?rows"
    by (simp add: loadThread_def Let_def)
  have a: "set (validMessages st ?rows)
      = {m. \<exists>r \<in> set (messages st). (m_id r = k \<or> m_thread_id r = Some k) \<and> embed st r = Some m}"
    by (auto simp add: set_validMessages order_asc_def inThread_def)
  have "filter (\<lambda>r. embed st r \<noteq> None) ?rows
      = order_asc (filter (\<lambda>r. inThread k r \<and> embed st r \<noteq> None) (messages st))"
    by (simp add: order_asc_def filter_sort conj_commute)
  then have "length (validMessages st ?rows)
      = length (filter (\<lambda>r. inThread k r \<and> embed st r \<noteq> None) (messages st))"
    by (simp add: length_validMessages order_asc_def)
  also have "(\<lambda>r. inThread k r \<and> embed st r \<noteq> None)
      = (\<lambda>r. (m_id r = k \<or> m_thread_id r = Some k) \<and> ?resolves r)"
    by (rule ext) (simp only: inThread_def embed_resolves)
  finally have b: "length (validMessages st ?rows)
      = length (filter (\<lambda>r. (m_id r = k \<or> m_thread_id r = Some k) \<and> ?resolves r) (messages st))" .
  have c: "sorted (map created_at (validMessages st ?rows))"
    by (rule sorted_validMessages) (simp add: order_asc_def)
  have "stampedBy k ui st
      = (\<lambda>r. (m_id r = k \<or> m_thread_id r = Some k) \<and> ?resolves r
              \<and> m_read_at r = None \<and> Some (to_company_id r) = userCompanyId ui)"
    by (rule ext) (simp only: stampedBy_def inThread_def embed_resolves conj_assoc)
  then have e: "snd (loadThread Ok upd now k ui st)
           = st\<lparr>messages :=
                  map (\<lambda>r. if (m_id r = k \<or> m_thread_id r = Some k) \<and> ?resolves r
                               \<and> m_read_at r = None \<and> Some (to_company_id r) = userCompanyId ui
                            then r\<lparr>m_read_at := Some now\<rparr> else r)
                      (messages st)\<rparr>"
    using loadThread_store [OF d, of upd now k ui] ok by simp
  from a b c e loadThread_again [OF d ok, of ui' ui upd' now' k now] show ?thesis
    unfolding sel by (simp only: conj_assoc) blast
qed

text \<open>
  In the larger marketplace, with the dangling reply, Beta opens thread \<open>m1\<close> at time 40:
  the two messages of the thread that resolve are shown, Alfa's request is marked as
  read, and Gamma's request to Beta, unread too but of another thread, is not. Opening
  the thread again at time 50, every update accepted, changes nothing.
\<close>

theorem loadThread_returns_and_stamps_witness:
  "distinct (map m_id (messages bazaar_with_orphan))
   \<and> map msg_id (selectedThread (fst (loadThread Ok (\<lambda>_. Ok) 40 ''m1'' beta_inbox
                                        bazaar_with_orphan))) = [''m1'', ''m2'']
   \<and> messages (snd (loadThread Ok (\<lambda>_. Ok) 40 ''m1'' beta_inbox bazaar_with_orphan))
       = [request\<lparr>m_read_at := Some 40\<rparr>, answer, orphan, second_request, second_answer,
          alfa_request]
   \<and> m_read_at second_request = None \<and> to_company_id second_request = ''B''
   \<and> snd (loadThread Ok (\<lambda>_. Ok) 50 ''m1'' beta_inbox
            (snd (loadThread Ok (\<lambda>_. Ok) 40 ''m1'' beta_inbox bazaar_with_orphan)))
       = snd (loadThread Ok (\<lambda>_. Ok) 40 ''m1'' beta_inbox bazaar_with_orphan)"
proof -
  let ?st = bazaar_with_orphan
  have msgs: "messages ?st
      = [request, answer, orphan, second_request, second_answer, alfa_request]"
    by (simp add: bazaar_with_orphan_def)
  have tables: "c_id ` set (companies ?st) = {''A'', ''B'', ''G''}"
    "r_id ` set (resources ?st) = {''X'', ''Y''}"
    by (auto simp add: bazaar_with_orphan_def bazaar_def alfa_def beta_def gamma_def
        electrician_def plumber_def)
  have d: "distinct (map m_id (messages ?st))"
    by (simp add: msgs request_def answer_def orphan_def second_request_def second_answer_def
        alfa_request_def)
  have ok: "\<forall>i. (\<lambda>_. Ok) i = Ok"
    by simp
  have u: "userCompanyId beta_inbox = Some ''B''"
    by (simp add: beta_inbox_def)
  note inst = loadThread_returns_and_stamps
                [OF d ok, of 40 "''m1''" beta_inbox beta_inbox "\<lambda>_. Ok" 50]
  from inst have e: "snd (loadThread Ok (\<lambda>_. Ok) 40 ''m1'' beta_inbox ?st)
      = ?st\<lparr>messages :=
            map (\<lambda>r. if (m_id r = ''m1'' \<or> m_thread_id r = Some ''m1'')
                         \<and> from_company_id r \<in> c_id ` set (companies ?st)
                         \<and> to_company_id r \<in> c_id ` set (companies ?st)
                         \<and> resource_id r \<in> r_id ` set (resources ?st)
                         \<and> m_read_at r = None
                         \<and> Some (to_company_id r) = userCompanyId beta_inbox
                      then r\<lparr>m_read_at := Some 40\<rparr> else r)
                (messages ?st)\<rparr>"
    by blast
  have stamped: "messages (snd (loadThread Ok (\<lambda>_. Ok) 40 ''m1'' beta_inbox ?st))
       = [request\<lparr>m_read_at := Some 40\<rparr>, answer, orphan, second_request, second_answer,
          alfa_request]"
    by (subst e, simp only: tables u msgs store.simps)
       (simp add: request_def answer_def orphan_def second_request_def second_answer_def
          alfa_request_def)
  have shown: "map msg_id (selectedThread (fst (loadThread Ok (\<lambda>_. Ok) 40 ''m1'' beta_inbox ?st)))
      = [''m1'', ''m2'']"
    by (simp add: loadThread_def Let_def bazaar_with_orphan_def bazaar_def orphan_def request_def
        answer_def second_request_def second_answer_def alfa_request_def inThread_def
        order_asc_def validMessages_def embed_def find_company_def find_resource_def alfa_def
        beta_def gamma_def electrician_def plumber_def)
  have other: "m_read_at second_request = None" "to_company_id second_request = ''B''"
    by (simp_all add: second_request_def)
  from inst have again: "snd (loadThread Ok (\<lambda>_. Ok) 50 ''m1'' beta_inbox
            (snd (loadThread Ok (\<lambda>_. Ok) 40 ''m1'' beta_inbox ?st)))
       = snd (loadThread Ok (\<lambda>_. Ok) 40 ''m1'' beta_inbox ?st)"
    by blast
  from d shown stamped other again show ?thesis
    by blast
qed

text \<open>
  A reply of thread \<open>m1\<close> from a company that no longer resolves is a row of the store
  with \<open>thread_id = m1\<close>, and \<open>loadThread m1\<close> does not show it.
\<close>

theorem dangling_reply_not_returned_counterexample:
  "orphan \<in> set (messages bazaar_with_orphan)
   \<and> m_thread_id orphan = Some ''m1''
   \<and> map msg_id (selectedThread (fst (loadThread Ok (\<lambda>_. Ok) 40 ''m1'' alfa_inbox
                                        bazaar_with_orphan)))
       = [''m1'', ''m2'']"
  by (simp add: loadThread_def Let_def bazaar_with_orphan_def bazaar_def orphan_def request_def
      answer_def second_request_def second_answer_def alfa_request_def inThread_def
      order_asc_def validMessages_def embed_def find_company_def find_resource_def alfa_def
      beta_def gamma_def electrician_def plumber_def)

section \<open>The list of threads\<close>

lemma update_new_key: "k \<notin> fst ` set al \<Longrightarrow> AList.update k v al = al @ [(k, v)]"
  by (induction al) auto

lemma firstPerThread_subset: "set (firstPerThread seen ms) \<subseteq> set ms"
  by (induction ms arbitrary: seen) auto

lemma firstPerThread_keys:
  "threadKey ` set (firstPerThread seen ms) = threadKey ` set ms - seen"
  by (induction ms arbitrary: seen) auto

lemma firstPerThread_distinct: "distinct (map threadKey (firstPerThread seen ms))"
proof (induction ms arbitrary: seen)
  case Nil
  show ?case by simp
next
  case (Cons m ms)
  have "threadKey m \<notin> threadKey ` set (firstPerThread (insert (threadKey m) seen) ms)"
    by (simp add: firstPerThread_keys)
  with Cons.IH show ?case by simp
qed

lemma firstPerThread_newestFirst:
  "newestFirst ms \<Longrightarrow> newestFirst (firstPerThread seen ms)"
proof (induction ms arbitrary: seen)
  case Nil
  show ?case by (simp add: newestFirst_def)
next
  case (Cons m ms)
  then have rest: "newestFirst ms" and le: "\<forall>x \<in> set ms. created_at x \<le> created_at m"
    by (simp_all add: newestFirst_def)
  from le firstPerThread_subset [of "insert (threadKey m) seen" ms]
  have "\<forall>x \<in> set (firstPerThread (insert (threadKey m) seen) ms). created_at x \<le> created_at m"
    by blast
  with Cons.IH [OF rest] show ?case
    by (simp add: newestFirst_def)
qed

lemma firstPerThread_latest:
  assumes "newestFirst ms" and "m \<in> set (firstPerThread seen ms)" and "x \<in> set ms"
    and "threadKey x = threadKey m"
  shows "created_at x \<le> created_at m"
  using assms
proof (induction ms arbitrary: seen)
  case Nil
  then show ?case by simp
next
  case (Cons y ms)
  then have rest: "newestFirst ms" and le: "\<forall>z \<in> set ms. created_at z \<le> created_at y"
    by (simp_all add: newestFirst_def)
  show ?case
  proof (cases "threadKey y \<in> seen")
    case True
    with Cons.prems have m: "m \<in> set (firstPerThread seen ms)" by simp
    then have "threadKey m \<notin> seen"
      using firstPerThread_keys [of seen ms] by blast
    with True Cons.prems have "x \<in> set ms" by auto
    with Cons.IH [OF rest m] Cons.prems show ?thesis by simp
  next
    case False
    with Cons.prems have m: "m = y \<or> m \<in> set (firstPerThread (insert (threadKey y) seen) ms)"
      by simp
    then show ?thesis
    proof
      assume "m = y"
      with Cons.prems le show ?thesis by auto
    next
      assume m': "m \<in> set (firstPerThread (insert (threadKey y) seen) ms)"
      then have "threadKey m \<noteq> threadKey y"
        using firstPerThread_keys [of "insert (threadKey y) seen" ms] by blast
      with Cons.prems have "x \<in> set ms" by auto
      with Cons.IH [OF rest m'] Cons.prems show ?thesis by simp
    qed
  qed
qed

lemma foldl_threadStep:
  assumes "newestFirst ms"
    and "\<forall>p \<in> set acc. \<forall>x \<in> set ms. created_at x \<le> created_at (snd p)"
  shows "foldl threadStep acc ms
           = acc @ map (\<lambda>m. (threadKey m, m)) (firstPerThread (fst ` set acc) ms)"
  using assms
proof (induction ms arbitrary: acc)
  case Nil
  show ?case by simp
next
  case (Cons m ms)
  from Cons.prems have rest: "newestFirst ms" and le: "\<forall>x \<in> set ms. created_at x \<le> created_at m"
    by (simp_all add: newestFirst_def)
  from Cons.prems have acc_m: "\<forall>p \<in> set acc. created_at m \<le> created_at (snd p)"
    and acc_ms: "\<forall>p \<in> set acc. \<forall>x \<in> set ms. created_at x \<le> created_at (snd p)"
    by simp_all
  show ?case
  proof (cases "map_of acc (threadKey m)")
    case None
    then have new: "threadKey m \<notin> fst ` set acc"
      by (simp add: map_of_eq_None_iff)
    then have step: "threadStep acc m = acc @ [(threadKey m, m)]"
      using None by (simp add: threadStep_def threadKey_def update_new_key)
    have "\<forall>p \<in> set (acc @ [(threadKey m, m)]). \<forall>x \<in> set ms. created_at x \<le> created_at (snd p)"
      using acc_ms le by auto
    from Cons.IH [OF rest this] new step show ?thesis
      by simp
  next
    case (Some cur)
    then have "(threadKey m, cur) \<in> set acc"
      by (rule map_of_SomeD)
    with acc_m have "created_at m \<le> created_at cur" and old: "threadKey m \<in> fst ` set acc"
      by force+
    with Some have step: "threadStep acc m = acc"
      by (simp add: threadStep_def threadKey_def)
    from Cons.IH [OF rest acc_ms] old step show ?thesis
      by simp
  qed
qed

lemma latestMessages_firstPerThread:
  "newestFirst ms \<Longrightarrow> latestMessages ms = firstPerThread {} ms"
  using foldl_threadStep [of ms "[]"]
  by (simp add: latestMessages_def comp_def)

lemma newestFirst_validMessages:
  "sorted (map (\<lambda>r. - m_created_at r) rows) \<Longrightarrow> newestFirst (validMessages st rows)"
proof (induction rows)
  case Nil
  show ?case by (simp add: validMessages_def newestFirst_def)
next
  case (Cons r rows)
  then have rest: "newestFirst (validMessages st rows)"
    and le: "\<forall>x \<in> set rows. m_created_at x \<le> m_created_at r"
    by simp_all
  show ?case
  proof (cases "embed st r")
    case None
    with rest show ?thesis by (simp add: validMessages_def)
  next
    case (Some m)
    have "created_at m' \<le> created_at m" if "m' \<in> set (validMessages st rows)" for m'
    proof -
      from that obtain r' where "r' \<in> set rows" "embed st r' = Some m'"
        by (auto simp add: set_validMessages)
      with le embed_fields(3) [OF Some] embed_fields(3) [of st r' m'] show ?thesis
        by simp
    qed
    with rest Some show ?thesis
      by (simp add: validMessages_def newestFirst_def)
  qed
qed

lemma threadKey_embed: "embed st r = Some m \<Longrightarrow> threadKey m = rowKey r"
  by (simp add: threadKey_def rowKey_def embed_fields)

text \<open>
  C9. For a signed-in company \<open>u\<close> and a select that succeeds, the list that
  \<open>loadMessages\<close> shows holds only messages of the store that \<open>u\<close> sent or received and
  whose two companies and resource are rows of the store; it has exactly one message for
  every thread with such a message, and none of that thread's is more recent; it is in
  descending order of \<open>created_at\<close>; and a row with a dangling reference is left out
  without an error.
\<close>

theorem loadMessages_latest_per_thread:
  assumes "userCompanyId ui = Some u" and "u \<noteq> []"
  shows "set (inbox_messages (loadMessages Ok st ui))
           \<subseteq> {m. \<exists>r \<in> set (messages st).
                   (from_company_id r = u \<or> to_company_id r = u) \<and> embed st r = Some m}
         \<and> threadKey ` set (inbox_messages (loadMessages Ok st ui))
           = rowKey ` {r \<in> set (messages st).
                        (from_company_id r = u \<or> to_company_id r = u)
                        \<and> from_company_id r \<in> c_id ` set (companies st)
                        \<and> to_company_id r \<in> c_id ` set (companies st)
                        \<and> resource_id r \<in> r_id ` set (resources st)}
         \<and> distinct (map threadKey (inbox_messages (loadMessages Ok st ui)))
         \<and> (\<forall>m \<in> set (inbox_messages (loadMessages Ok st ui)).
              \<forall>r \<in> set (messages st).
                (from_company_id r = u \<or> to_company_id r = u)
                \<and> from_company_id r \<in> c_id ` set (companies st)
                \<and> to_company_id r \<in> c_id ` set (companies st)
                \<and> resource_id r \<in> r_id ` set (resources st)
                \<and> rowKey r = threadKey m
                  \<longrightarrow> m_created_at r \<le> created_at m)
         \<and> sorted (rev (map created_at (inbox_messages (loadMessages Ok st ui))))
         \<and> error (loadMessages Ok st ui) = error ui"
proof -
  let ?rows = "order_desc (filter (involves u) (messages st))"
  let ?V = "validMessages st ?rows"
  let ?L = "inbox_messages (loadMessages Ok st ui)"
  let ?mine = "\<lambda>r. from_company_id r = u \<or> to_company_id r = u"
  let ?resolves = "\<lambda>r. from_company_id r \<in> c_id ` set (companies st)
                        \<and> to_company_id r \<in> c_id ` set (companies st)
                        \<and> resource_id r \<in> r_id ` set (resources st)"
  have nf: "newestFirst ?V"
    by (rule newestFirst_validMessages) (simp add: order_desc_def)
  have L: "?L = firstPerThread {} ?V"
    using assms by (simp add: loadMessages_def truthy_def Let_def latestMessages_firstPerThread [OF nf])
  have V: "set ?V = {m. \<exists>r \<in> set (messages st). ?mine r \<and> embed st r = Some m}"
    by (auto simp add: set_validMessages order_desc_def involves_def)
  have a: "set ?L \<subseteq> {m. \<exists>r \<in> set (messages st). ?mine r \<and> embed st r = Some m}"
    unfolding L using firstPerThread_subset [of "{}" ?V] V by simp
  have "threadKey ` set ?V = rowKey ` {r \<in> set (messages st). ?mine r \<and> embed st r \<noteq> None}"
    unfolding V by (force simp add: threadKey_embed image_iff)
  then have "threadKey ` set ?L
      = rowKey ` {r \<in> set (messages st). ?mine r \<and> embed st r \<noteq> None}"
    unfolding L by (simp add: firstPerThread_keys)
  then have b: "threadKey ` set ?L = rowKey ` {r \<in> set (messages st). ?mine r \<and> ?resolves r}"
    by (simp only: embed_resolves)
  have c: "distinct (map threadKey ?L)"
    unfolding L by (rule firstPerThread_distinct)
  have d: "\<forall>m \<in> set ?L. \<forall>r \<in> set (messages st).
             ?mine r \<and> ?resolves r \<and> rowKey r = threadKey m \<longrightarrow> m_created_at r \<le> created_at m"
  proof (intro ballI impI)
    fix m r
    assume m: "m \<in> set ?L" and r: "r \<in> set (messages st)"
      and h: "?mine r \<and> ?resolves r \<and> rowKey r = threadKey m"
    then have "embed st r \<noteq> None"
      by (simp only: embed_resolves)
    then obtain x where x: "embed st r = Some x" by auto
    with r h have "x \<in> set ?V" unfolding V by auto
    moreover from x h have "threadKey x = threadKey m" by (simp add: threadKey_embed)
    ultimately have "created_at x \<le> created_at m"
      using firstPerThread_latest [OF nf, of m "{}" x] m unfolding L by simp
    with embed_fields(3) [OF x] show "m_created_at r \<le> created_at m" by simp
  qed
  have "newestFirst ?L"
    unfolding L by (rule firstPerThread_newestFirst [OF nf])
  then have e: "sorted (rev (map created_at ?L))"
    by (simp add: newestFirst_def sorted_wrt_rev sorted_wrt_map rev_map [symmetric])
  have f: "error (loadMessages Ok st ui) = error ui"
    using assms by (simp add: loadMessages_def truthy_def Let_def)
  from a b c d e f show ?thesis
    by (simp only: conj_assoc)
qed

text \<open>
  Alfa's list in the larger marketplace, with the dangling reply: Beta's answer stands
  for thread \<open>m1\<close> (the later reply does not resolve), then Alfa's own unanswered request
  to Gamma; the thread between Gamma and Beta is not Alfa's and is not listed.
\<close>

theorem loadMessages_latest_per_thread_witness:
  "userCompanyId alfa_inbox = Some ''A''
   \<and> inbox_messages (loadMessages Ok bazaar_with_orphan alfa_inbox)
       = [answer_msg, alfa_request_msg]
   \<and> threadKey ` set (inbox_messages (loadMessages Ok bazaar_with_orphan alfa_inbox))
       = {''m1'', ''m6''}
   \<and> rowKey second_request = ''m4'' \<and> rowKey second_answer = ''m4''
   \<and> sorted (rev (map created_at (inbox_messages (loadMessages Ok bazaar_with_orphan alfa_inbox))))
   \<and> error (loadMessages Ok bazaar_with_orphan alfa_inbox) = None"
proof -
  let ?st = bazaar_with_orphan
  let ?mine = "\<lambda>r. (from_company_id r = ''A'' \<or> to_company_id r = ''A'')
                \<and> from_company_id r \<in> c_id ` set (companies ?st)
                \<and> to_company_id r \<in> c_id ` set (companies ?st)
                \<and> resource_id r \<in> r_id ` set (resources ?st)"
  have u: "userCompanyId alfa_inbox = Some ''A''" "''A'' \<noteq> []"
    by (simp_all add: alfa_inbox_def)
  have none: "error alfa_inbox = None"
    by (simp add: alfa_inbox_def)
  have shown: "inbox_messages (loadMessages Ok ?st alfa_inbox) = [answer_msg, alfa_request_msg]"
    by code_simp
  have "map rowKey (filter ?mine (messages ?st)) = [''m1'', ''m1'', ''m6'']"
    by code_simp
  then have "set (map rowKey (filter ?mine (messages ?st))) = {''m1'', ''m6''}"
    by simp
  then have mine: "rowKey ` {r \<in> set (messages ?st). ?mine r} = {''m1'', ''m6''}"
    by (simp only: set_map set_filter)
  have foreign: "rowKey second_request = ''m4''" "rowKey second_answer = ''m4''"
    by (simp_all add: rowKey_def or_else_def second_request_def second_answer_def)
  note inst = loadMessages_latest_per_thread [OF u, of ?st]
  from inst have "threadKey ` set (inbox_messages (loadMessages Ok ?st alfa_inbox))
      = rowKey ` {r \<in> set (messages ?st). ?mine r}"
    by blast
  then have threads: "threadKey ` set (inbox_messages (loadMessages Ok ?st alfa_inbox))
      = {''m1'', ''m6''}"
    by (simp only: mine)
  from inst have desc: "sorted (rev (map created_at (inbox_messages (loadMessages Ok ?st alfa_inbox))))"
    by blast
  from inst none have quiet: "error (loadMessages Ok ?st alfa_inbox) = None"
    by simp
  from u(1) shown threads foreign desc quiet show ?thesis
    by blast
qed

end
